theory Spec2Isabelle
  imports Complex_Main
begin

section \<open>Auto-upload pipeline of the maca browser extension\<close>

text \<open>
  A shallow embedding of the auto-upload processing pipeline: the per-tab queue
  coordinator of \<^verbatim>\<open>background.js\<close> (the second, complete copy in the source file,
  from line 1321 on) and the upload gate of \<^verbatim>\<open>context_helper.js\<close>, in
  the two copies the source holds: the file \<^verbatim>\<open>src/context_helper.js\<close>, whose gate has no
  upload signal tracker, and the copy stored after the README text, which has it.

  The service worker runs on one event loop. Every stretch of code between two
  \<^verbatim>\<open>await\<close>s runs without interruption and is one function on the state here; the
  scheduler that picks which suspended handler or job continues is the labelled
  step function \<open>step\<close>. \<^verbatim>\<open>Date.now()\<close> is the clock field \<open>now\<close> of the state, constant
  inside one such stretch; it advances by the event \<open>Tick\<close>.
\<close>

subsection \<open>Data\<close>

text \<open>\<^verbatim>\<open>sender?.tab?.id\<close>: a tab number, or \<open>None\<close> for \<^verbatim>\<open>undefined\<close>.\<close>

type_synonym tabId = "nat option"

text \<open>The object built by \<^verbatim>\<open>getAutoUploadStats\<close>; \<^verbatim>\<open>done\<close> is a keyword of the prover, so
  every field carries the prefix \<open>st_\<close>.\<close>

record stats =
  st_queued :: nat
  st_done :: nat
  st_ok :: nat
  st_error :: nat
  st_startedAt :: int
  st_lastAt :: int

text \<open>The configuration keys the pipeline reads. \<open>autoUploadSafetyFuseEnabled\<close> is
  \<open>Some b\<close> when the stored value is the boolean \<open>b\<close> and \<open>None\<close> for anything else (the
  code tests \<^verbatim>\<open>!== false\<close>); \<open>autoUploadSafetyFuseMaxQueued\<close> is \<open>Some q\<close> when \<^verbatim>\<open>Number(value)\<close>
  is the finite number \<open>q\<close> and \<open>None\<close> when it is not finite.\<close>

record cfg =
  wpAutoAnalyzeOnUpload :: bool
  autoUploadSafetyFuseEnabled :: "bool option"
  autoUploadSafetyFuseMaxQueued :: "rat option"
  autoDeselectProcessedOnAutoFill :: bool

datatype phase =
    queued | processing | done_item | error_item | cancelled_item
  | paused | resumed | cancel_request | cancelled | done_all | safety_stop

text \<open>The payload a caller hands to \<^verbatim>\<open>sendAutoUploadProgress\<close>.\<close>

record payload =
  phase :: phase
  attachmentId :: "string option"
  p_queued :: nat
  p_done :: nat
  p_ok :: nat
  p_error :: nat
  fuseMax :: "rat option"
  errorMessage :: "string option"

text \<open>The message \<^verbatim>\<open>sendAutoUploadProgress\<close> passes to \<^verbatim>\<open>chrome.tabs.sendMessage\<close>: the
  payload, the target tab, the queue preview and the paused flag.\<close>

record progress =
  m_tab :: tabId
  m_queue :: "string list"
  m_paused :: bool
  m_payload :: payload

text \<open>What the handler passes to \<^verbatim>\<open>sendResponse\<close>.\<close>

datatype response =
    Skipped bool string "rat option"  \<comment> \<open>\<^verbatim>\<open>{ok, skipped: true, reason, fuseMax?}\<close>\<close>
  | Accepted string                  \<comment> \<open>\<^verbatim>\<open>{ok: true, attachmentId}\<close>\<close>
  | Failed string                    \<comment> \<open>\<^verbatim>\<open>{ok: false, error}\<close>\<close>

text \<open>Program counters: the \<^verbatim>\<open>await\<close> at which a handler of
  \<^verbatim>\<open>MACA_AUTO_PROCESS_ATTACHMENT\<close> or a job body is suspended.\<close>

datatype hpc =
    H_config                      \<comment> \<open>\<^verbatim>\<open>await getConfigCached()\<close>\<close>
  | H_fuse_sent rat               \<comment> \<open>\<^verbatim>\<open>safety_stop\<close> sent, debug log pending\<close>
  | H_queued_sent cfg nat         \<comment> \<open>\<^verbatim>\<open>queued\<close> sent; holds \<^verbatim>\<open>cfg\<close> and the address of \<^verbatim>\<open>st\<close>\<close>
  | H_job nat                     \<comment> \<open>\<^verbatim>\<open>await enqueueAutoUploadJob(...)\<close>\<close>
  | H_cancelled_item_sent nat     \<comment> \<open>catch, cancellation: \<^verbatim>\<open>cancelled_item\<close> sent\<close>
  | H_cancelled_sent              \<comment> \<open>catch, cancellation: \<^verbatim>\<open>cancelled\<close> sent\<close>
  | H_error_item_sent nat string  \<comment> \<open>catch, error: \<^verbatim>\<open>error_item\<close> sent\<close>
  | H_error_done_all_sent string  \<comment> \<open>catch, error: \<^verbatim>\<open>done_all\<close> sent\<close>
  | H_error_tail string           \<comment> \<open>catch, error: config, debug log and metrics pending\<close>
  | H_finished response

record handler =
  h_tabId :: tabId
  h_pageUrl :: string
  h_attachmentId :: string
  h_imageUrl :: string
  h_markedSeen :: bool
  h_pc :: hpc

datatype jpc =
    J_waiting             \<comment> \<open>chained with \<^verbatim>\<open>.then\<close>, not started\<close>
  | J_pause_sleep         \<comment> \<open>inside \<^verbatim>\<open>waitIfAutoUploadPaused\<close>, in the 150 ms sleep\<close>
  | J_after_pause         \<comment> \<open>\<^verbatim>\<open>await waitIfAutoUploadPaused(tabId)\<close> about to return\<close>
  | J_start_log           \<comment> \<open>\<^verbatim>\<open>await addDebugLog(cfg, "auto_upload_start", ...)\<close>\<close>
  | J_processing_sent     \<comment> \<open>\<^verbatim>\<open>processing\<close> sent\<close>
  | J_analyzing           \<comment> \<open>\<^verbatim>\<open>await analyzeImage(...)\<close>\<close>
  | J_applying            \<comment> \<open>\<^verbatim>\<open>await autoApplyAttachmentWithRetry(...)\<close>\<close>
  | J_deselect            \<comment> \<open>\<^verbatim>\<open>await chrome.tabs.sendMessage(... MACA_DESELECT_ATTACHMENT ...)\<close>\<close>
  | J_done_item_sent      \<comment> \<open>\<^verbatim>\<open>done_item\<close> sent\<close>
  | J_done_all_sent       \<comment> \<open>\<^verbatim>\<open>done_all\<close> sent\<close>
  | J_done_log            \<comment> \<open>\<^verbatim>\<open>await addDebugLog(cfg, "auto_upload_done", ...)\<close>\<close>
  | J_fulfilled
  | J_rejected string     \<comment> \<open>the message of the error thrown\<close>

text \<open>The closure handed to \<^verbatim>\<open>enqueueAutoUploadJob\<close>: the variables it captured, the
  promise it was chained onto (\<open>None\<close> for \<^verbatim>\<open>Promise.resolve()\<close>) and where it stands.\<close>

record job =
  j_tabId :: tabId
  j_attachmentId :: string
  j_cfg :: cfg
  j_st :: nat
  j_prev :: "nat option"
  j_pc :: jpc

text \<open>The module-level maps of \<^verbatim>\<open>background.js\<close>, the stats objects they point to, the
  pending \<^verbatim>\<open>setTimeout\<close> callbacks of \<^verbatim>\<open>resetAutoUploadStatsLater\<close> as (tab, delay, due time),
  the handlers and jobs in flight, and the progress messages sent so far (oldest first).
  \<open>cancelByTab t\<close> and \<open>pausedByTab t\<close> stand for \<^verbatim>\<open>map.get(t) === true\<close>: the code only
  ever stores \<^verbatim>\<open>true\<close> or deletes the key.\<close>

record sys =
  now :: int
  heap :: "nat \<Rightarrow> stats"
  nalloc :: nat
  statsByTab :: "tabId \<rightharpoonup> nat"
  seenByTab :: "tabId \<rightharpoonup> (string \<rightharpoonup> int)"
  cancelByTab :: "tabId \<Rightarrow> bool"
  pausedByTab :: "tabId \<Rightarrow> bool"
  pendingIdsByTab :: "tabId \<rightharpoonup> string list"
  queueByTab :: "tabId \<rightharpoonup> nat"
  jobs :: "nat \<rightharpoonup> job"
  njobs :: nat
  handlers :: "nat \<rightharpoonup> handler"
  nhandlers :: nat
  timers :: "(tabId \<times> int \<times> int) list"
  sent :: "progress list"

subsection \<open>The seen registry\<close>

definition wasRecentlyAutoProcessed :: "tabId \<Rightarrow> string \<Rightarrow> int \<Rightarrow> sys \<Rightarrow> bool \<times> sys" where
  "wasRecentlyAutoProcessed tabId aid ttlMs s =
     (case seenByTab s tabId of
        None \<Rightarrow> (False, s)
      | Some byTab \<Rightarrow>
          let byTab' = (\<lambda>k. case byTab k of
                              None \<Rightarrow> None
                            | Some ts \<Rightarrow> if now s - ts > ttlMs then None else Some ts);
              s' = s\<lparr>seenByTab := (seenByTab s)(tabId \<mapsto> byTab')\<rparr>
          in if aid = [] then (False, s')
             else (case byTab' aid of
                     None \<Rightarrow> (False, s')
                   | Some ts \<Rightarrow> (ts \<noteq> 0 \<and> now s - ts \<le> ttlMs, s')))"

definition markAutoProcessed :: "tabId \<Rightarrow> string \<Rightarrow> sys \<Rightarrow> sys" where
  "markAutoProcessed tabId aid s =
     (if tabId = None \<or> aid = [] then s
      else let byTab = (case seenByTab s tabId of None \<Rightarrow> Map.empty | Some m \<Rightarrow> m)
           in s\<lparr>seenByTab := (seenByTab s)(tabId \<mapsto> byTab(aid \<mapsto> now s))\<rparr>)"

definition unmarkAutoProcessed :: "tabId \<Rightarrow> string \<Rightarrow> sys \<Rightarrow> sys" where
  "unmarkAutoProcessed tabId aid s =
     (if tabId = None \<or> aid = [] then s
      else (case seenByTab s tabId of
              None \<Rightarrow> s
            | Some byTab \<Rightarrow> s\<lparr>seenByTab := (seenByTab s)(tabId \<mapsto> byTab(aid := None))\<rparr>))"

subsection \<open>The pending-id list and the queue preview\<close>

definition getAutoPendingIds :: "tabId \<Rightarrow> sys \<Rightarrow> string list \<times> sys" where
  "getAutoPendingIds tabId s =
     (case pendingIdsByTab s tabId of
        Some list \<Rightarrow> (list, s)
      | None \<Rightarrow> ([], s\<lparr>pendingIdsByTab := (pendingIdsByTab s)(tabId \<mapsto> [])\<rparr>))"

definition enqueueAutoPendingId :: "tabId \<Rightarrow> string \<Rightarrow> sys \<Rightarrow> sys" where
  "enqueueAutoPendingId tabId aid s =
     (if aid = [] then s
      else let (list, s') = getAutoPendingIds tabId s
           in if aid \<in> set list then s'
              else s'\<lparr>pendingIdsByTab := (pendingIdsByTab s')(tabId \<mapsto> list @ [aid])\<rparr>)"

definition dequeueAutoPendingId :: "tabId \<Rightarrow> string \<Rightarrow> sys \<Rightarrow> sys" where
  "dequeueAutoPendingId tabId aid s =
     (if aid = [] then s
      else let (list, s') = getAutoPendingIds tabId s
           in s'\<lparr>pendingIdsByTab := (pendingIdsByTab s')(tabId \<mapsto> remove1 aid list)\<rparr>)"

text \<open>\<^verbatim>\<open>maxLen | 0\<close> for an integral \<^verbatim>\<open>maxLen\<close>: the value is taken modulo \<open>2^32\<close> into the
  signed 32-bit range.\<close>

definition toInt32 :: "int \<Rightarrow> int" where
  "toInt32 n = (n + 2147483648) mod 4294967296 - 2147483648"

definition queuePreviewFromTab :: "tabId \<Rightarrow> int \<Rightarrow> sys \<Rightarrow> string list \<times> sys" where
  "queuePreviewFromTab tabId maxLen s =
     (let (list, s') = getAutoPendingIds tabId s
      in (take (nat (max 1 (toInt32 maxLen))) list, s'))"

subsection \<open>Stats, the reset timer and progress messages\<close>

definition getAutoUploadStats :: "tabId \<Rightarrow> sys \<Rightarrow> nat \<times> sys" where
  "getAutoUploadStats tabId s =
     (let (a, s') = (case statsByTab s tabId of
                       Some a \<Rightarrow> (a, s)
                     | None \<Rightarrow>
                         (nalloc s,
                          s\<lparr>heap := (heap s)(nalloc s :=
                                 \<lparr>st_queued = 0, st_done = 0, st_ok = 0, st_error = 0,
                                  st_startedAt = now s, st_lastAt = now s\<rparr>),
                            nalloc := Suc (nalloc s),
                            statsByTab := (statsByTab s)(tabId \<mapsto> nalloc s)\<rparr>))
      in (a, s'\<lparr>heap := (heap s')(a := (heap s' a)\<lparr>st_lastAt := now s\<rparr>)\<rparr>))"

definition resetAutoUploadStatsLater :: "tabId \<Rightarrow> int \<Rightarrow> sys \<Rightarrow> sys" where
  "resetAutoUploadStatsLater tabId delayMs s =
     s\<lparr>timers := timers s @ [(tabId, delayMs, now s + delayMs)]\<rparr>"

text \<open>The callback \<^verbatim>\<open>resetAutoUploadStatsLater\<close> hands to \<^verbatim>\<open>setTimeout\<close>.\<close>

definition resetTimerCallback :: "tabId \<Rightarrow> int \<Rightarrow> sys \<Rightarrow> sys" where
  "resetTimerCallback tabId delayMs s =
     (case statsByTab s tabId of
        None \<Rightarrow> s
      | Some a \<Rightarrow>
          if now s - st_lastAt (heap s a) < delayMs - 500 then s
          else s\<lparr>statsByTab := (statsByTab s)(tabId := None)\<rparr>)"

definition sendAutoUploadProgress :: "tabId \<Rightarrow> payload \<Rightarrow> sys \<Rightarrow> sys" where
  "sendAutoUploadProgress tabId base s =
     (let (preview, s') = queuePreviewFromTab tabId 8 s
      in s'\<lparr>sent := sent s' @
                [\<lparr>m_tab = tabId, m_queue = preview, m_paused = pausedByTab s' tabId,
                  m_payload = base\<rparr>]\<rparr>)"

text \<open>The payload every call site builds from the counters of a stats object.\<close>

definition counts :: "phase \<Rightarrow> string option \<Rightarrow> stats \<Rightarrow> payload" where
  "counts ph aid st =
     \<lparr>phase = ph, attachmentId = aid, p_queued = st_queued st, p_done = st_done st,
      p_ok = st_ok st, p_error = st_error st, fuseMax = None, errorMessage = None\<rparr>"

subsection \<open>Small helpers of the handler\<close>

text \<open>\<^verbatim>\<open>/\/wp-admin\//.test(s)\<close>: the text occurs somewhere in the URL.\<close>

fun contains :: "string \<Rightarrow> string \<Rightarrow> bool" where
  "contains p [] = (p = [])"
| "contains p (c # cs) = (take (length p) (c # cs) = p \<or> contains p cs)"

definition isWpAdminUrl :: "string \<Rightarrow> bool" where
  "isWpAdminUrl u = contains ''/wp-admin/'' u"

definition fuseEnabledOf :: "cfg \<Rightarrow> bool" where
  "fuseEnabledOf c = (autoUploadSafetyFuseEnabled c \<noteq> Some False)"

definition fuseMaxOf :: "cfg \<Rightarrow> rat" where
  "fuseMaxOf c = (case autoUploadSafetyFuseMaxQueued c of Some q \<Rightarrow> max 5 q | None \<Rightarrow> 24)"

text \<open>The messages of the errors the handler and the job throw themselves; the
  non-ASCII letters are spelled as their UTF-8 bytes.\<close>

definition AUTO_UPLOAD_CANCELLED :: string where
  "AUTO_UPLOAD_CANCELLED = ''AUTO_UPLOAD_CANCELLED''"

definition msg_no_tab :: string where
  "msg_no_tab = ''No hay pesta'' @ [CHR 0xC3, CHR 0xB1] @ ''a activa.''"

definition msg_missing_data :: string where
  "msg_missing_data =
     ''Faltan datos del adjunto reci'' @ [CHR 0xC3, CHR 0xA9] @ ''n subido.''"

definition msg_apply_failed :: string where
  "msg_apply_failed = ''No se pudo aplicar el resultado en los campos de Medios.''"

text \<open>\<^verbatim>\<open>err?.message || String(err)\<close> for an \<^verbatim>\<open>Error\<close> with the given message.\<close>

definition errText :: "string \<Rightarrow> string" where
  "errText m = (if m = [] then ''Error'' else m)"

definition updStats :: "nat \<Rightarrow> (stats \<Rightarrow> stats) \<Rightarrow> sys \<Rightarrow> sys" where
  "updStats a f s = s\<lparr>heap := (heap s)(a := f (heap s a))\<rparr>"

definition setHpc :: "nat \<Rightarrow> hpc \<Rightarrow> sys \<Rightarrow> sys" where
  "setHpc hid pc s =
     (case handlers s hid of
        None \<Rightarrow> s
      | Some h \<Rightarrow> s\<lparr>handlers := (handlers s)(hid \<mapsto> h\<lparr>h_pc := pc\<rparr>)\<rparr>)"

definition setJpc :: "nat \<Rightarrow> jpc \<Rightarrow> sys \<Rightarrow> sys" where
  "setJpc k pc s =
     (case jobs s k of
        None \<Rightarrow> s
      | Some j \<Rightarrow> s\<lparr>jobs := (jobs s)(k \<mapsto> j\<lparr>j_pc := pc\<rparr>)\<rparr>)"

text \<open>\<^verbatim>\<open>__autoUploadPausedByTab.delete(tabId); __autoUploadPendingIdsByTab.delete(tabId)\<close>,
  the pair every settlement branch runs.\<close>

definition clearPausedAndPending :: "tabId \<Rightarrow> sys \<Rightarrow> sys" where
  "clearPausedAndPending tabId s =
     s\<lparr>pausedByTab := (pausedByTab s)(tabId := False),
       pendingIdsByTab := (pendingIdsByTab s)(tabId := None)\<rparr>"

subsection \<open>The retry wrapper of the field applier\<close>

text \<open>One call of \<^verbatim>\<open>chrome.tabs.sendMessage(tabId, payload)\<close>: it throws, or it resolves
  with a response whose \<^verbatim>\<open>applied\<close> member is absent (\<open>None\<close>) or tells which fields were
  set (their truthiness).\<close>

record applied =
  alt :: bool
  title :: bool
  leyenda :: bool

datatype attempt = Threw string | Replied "applied option"

text \<open>\<^verbatim>\<open>lastRes\<close>: \<^verbatim>\<open>null\<close>, a response, or \<^verbatim>\<open>{ok: false, error}\<close> built in the catch.\<close>

datatype lastRes = Null | Response "applied option" | CaughtError string

record applyResult =
  r_ok :: bool
  r_attempts :: nat
  r_response :: lastRes
  r_calls :: nat   \<comment> \<open>not in the source: how many times \<^verbatim>\<open>sendMessage\<close> was called\<close>
  r_slept :: int   \<comment> \<open>not in the source: the sum of the \<^verbatim>\<open>setTimeout\<close> delays awaited\<close>

definition appliedOk :: "applied option \<Rightarrow> bool" where
  "appliedOk r = (case r of None \<Rightarrow> False | Some a \<Rightarrow> alt a \<or> title a \<or> leyenda a)"

text \<open>The \<^verbatim>\<open>for\<close> loop, entered with the loop variable \<open>i\<close>; \<open>reply i\<close> is the outcome of the
  call made in round \<open>i\<close>.\<close>

function retryLoop ::
  "(nat \<Rightarrow> attempt) \<Rightarrow> nat \<Rightarrow> int \<Rightarrow> nat \<Rightarrow> lastRes \<Rightarrow> int \<Rightarrow> applyResult" where
  "retryLoop reply attempts delayMs i res slept =
     (if i < attempts then
        (case reply i of
           Replied r \<Rightarrow>
             if appliedOk r
             then \<lparr>r_ok = True, r_attempts = i + 1, r_response = Response r,
                   r_calls = i + 1, r_slept = slept\<rparr>
             else retryLoop reply attempts delayMs (i + 1) (Response r)
                    (if i + 1 < attempts then slept + delayMs else slept)
         | Threw m \<Rightarrow>
             retryLoop reply attempts delayMs (i + 1) (CaughtError (errText m))
               (if i + 1 < attempts then slept + delayMs else slept))
      else \<lparr>r_ok = False, r_attempts = attempts, r_response = res,
            r_calls = i, r_slept = slept\<rparr>)"
  by pat_completeness auto
termination
  by (relation "measure (\<lambda>(reply, attempts, delayMs, i, res, slept). attempts - i)") auto

declare retryLoop.simps [simp del]

definition autoApplyAttachmentWithRetry :: "(nat \<Rightarrow> attempt) \<Rightarrow> nat \<Rightarrow> int \<Rightarrow> applyResult" where
  "autoApplyAttachmentWithRetry reply attempts delayMs = retryLoop reply attempts delayMs 0 Null 0"

subsection \<open>The handler of MACA_AUTO_PROCESS_ATTACHMENT\<close>

definition finish :: "nat \<Rightarrow> response \<Rightarrow> sys \<Rightarrow> sys" where
  "finish hid r s = setHpc hid (H_finished r) s"

text \<open>The \<^verbatim>\<open>catch (err)\<close> block up to its first \<^verbatim>\<open>await\<close>, for an error with message
  \<open>m\<close>. It serves every \<^verbatim>\<open>throw\<close> inside the \<^verbatim>\<open>try\<close>: the two checks at its top, a failed
  \<^verbatim>\<open>getConfigCached\<close> and the rejection of the job's promise.\<close>

definition catchBlock :: "nat \<Rightarrow> string \<Rightarrow> sys \<Rightarrow> sys" where
  "catchBlock hid m s =
     (case handlers s hid of
        None \<Rightarrow> s
      | Some h \<Rightarrow>
          let tabId = h_tabId h; aid = h_attachmentId h;
              s1 = (if h_markedSeen h then unmarkAutoProcessed tabId aid s else s);
              s2 = dequeueAutoPendingId tabId aid s1;
              (a, s3) = getAutoUploadStats tabId s2
          in if m = AUTO_UPLOAD_CANCELLED then
               let s4 = updStats a (\<lambda>st. st\<lparr>st_done := st_done st + 1, st_lastAt := now s3\<rparr>) s3;
                   s5 = sendAutoUploadProgress tabId
                          (counts cancelled_item (Some aid) (heap s4 a)) s4
               in setHpc hid (H_cancelled_item_sent a) s5
             else
               let s4 = updStats a (\<lambda>st. st\<lparr>st_done := st_done st + 1,
                                             st_error := st_error st + 1,
                                             st_lastAt := now s3\<rparr>) s3;
                   s5 = sendAutoUploadProgress tabId
                          ((counts error_item (Some aid) (heap s4 a))
                             \<lparr>errorMessage := Some (errText m)\<rparr>) s4
               in setHpc hid (H_error_item_sent a m) s5)"

text \<open>The message arrives: the handler's code up to \<^verbatim>\<open>await getConfigCached()\<close>.
  \<open>pageUrl\<close> is \<^verbatim>\<open>sender?.tab?.url || msg?.pageUrl || ""\<close>.\<close>

definition onAutoProcessMessage :: "tabId \<Rightarrow> string \<Rightarrow> string \<Rightarrow> string \<Rightarrow> sys \<Rightarrow> sys" where
  "onAutoProcessMessage tabId pageUrl aid imageUrl s =
     (let hid = nhandlers s;
          s0 = s\<lparr>handlers := (handlers s)(hid \<mapsto>
                    \<lparr>h_tabId = tabId, h_pageUrl = pageUrl, h_attachmentId = aid,
                     h_imageUrl = imageUrl, h_markedSeen = False, h_pc = H_config\<rparr>),
                 nhandlers := Suc hid\<rparr>
      in if tabId = None then catchBlock hid msg_no_tab s0
         else if aid = [] \<or> imageUrl = [] then catchBlock hid msg_missing_data s0
         else if \<not> isWpAdminUrl pageUrl then finish hid (Skipped False ''non_wp'' None) s0
         else s0)"

text \<open>\<^verbatim>\<open>getConfigCached()\<close> has resolved with \<open>c\<close>: the gates (disabled, cancelled,
  duplicate, safety fuse) and the acceptance, up to the \<^verbatim>\<open>await\<close> of the progress message.\<close>

definition admit :: "nat \<Rightarrow> cfg \<Rightarrow> sys \<Rightarrow> sys" where
  "admit hid c s =
     (case handlers s hid of
        None \<Rightarrow> s
      | Some h \<Rightarrow>
          let tabId = h_tabId h; aid = h_attachmentId h
          in if \<not> wpAutoAnalyzeOnUpload c then finish hid (Skipped False ''disabled'' None) s
             else
               let (a, s1) = getAutoUploadStats tabId s;
                   settled = st_done (heap s1 a) \<ge> st_queued (heap s1 a);
                   stale = now s1 - st_lastAt (heap s1 a) > 30000
               in if cancelByTab s1 tabId \<and> \<not> (settled \<or> stale)
                  then finish hid (Skipped False ''cancelled'' None) s1
                  else
                    let s2 = (if cancelByTab s1 tabId
                              then s1\<lparr>cancelByTab := (cancelByTab s1)(tabId := False)\<rparr>
                              else s1);
                        (dup, s3) = wasRecentlyAutoProcessed tabId aid (5 * 60 * 1000) s2
                    in if dup then finish hid (Skipped True ''duplicate'' None) s3
                       else if fuseEnabledOf c \<and> of_nat (st_queued (heap s3 a)) \<ge> fuseMaxOf c
                       then
                         let s4 = clearPausedAndPending tabId
                                    (s3\<lparr>cancelByTab := (cancelByTab s3)(tabId := True)\<rparr>);
                             s5 = sendAutoUploadProgress tabId
                                    ((counts safety_stop (Some aid) (heap s4 a))
                                       \<lparr>fuseMax := Some (fuseMaxOf c)\<rparr>) s4
                         in setHpc hid (H_fuse_sent (fuseMaxOf c)) s5
                       else
                         let s4 = updStats a (\<lambda>st. st\<lparr>st_queued := st_queued st + 1\<rparr>) s3;
                             s5 = enqueueAutoPendingId tabId aid s4;
                             s6 = sendAutoUploadProgress tabId
                                    (counts queued (Some aid) (heap s5 a)) s5
                         in setHpc hid (H_queued_sent c a) s6)"

text \<open>\<^verbatim>\<open>enqueueAutoUploadJob\<close>: the new promise \<^verbatim>\<open>prev.catch(() => {}).then(jobFn)\<close> is the
  job with the next free number, chained onto the promise stored for the tab.\<close>

definition enqueueAutoUploadJob :: "tabId \<Rightarrow> string \<Rightarrow> cfg \<Rightarrow> nat \<Rightarrow> sys \<Rightarrow> nat \<times> sys" where
  "enqueueAutoUploadJob tabId aid c a s =
     (let k = njobs s
      in (k, s\<lparr>jobs := (jobs s)(k \<mapsto>
                   \<lparr>j_tabId = tabId, j_attachmentId = aid, j_cfg = c, j_st = a,
                    j_prev = queueByTab s tabId, j_pc = J_waiting\<rparr>),
               njobs := Suc k,
               queueByTab := (queueByTab s)(tabId \<mapsto> k)\<rparr>))"

definition settled :: "sys \<Rightarrow> nat \<Rightarrow> bool" where
  "settled s k =
     (case jobs s k of
        None \<Rightarrow> False
      | Some j \<Rightarrow> (case j_pc j of J_fulfilled \<Rightarrow> True | J_rejected m \<Rightarrow> True | _ \<Rightarrow> False))"

text \<open>The handler continues after the \<^verbatim>\<open>await\<close> it is suspended at. Waiting for the
  configuration it continues by \<open>admit\<close> instead; waiting for its job it continues only
  once the job's promise has settled.\<close>

definition handlerResume :: "nat \<Rightarrow> sys \<Rightarrow> sys option" where
  "handlerResume hid s =
     (case handlers s hid of
        None \<Rightarrow> None
      | Some h \<Rightarrow>
          let tabId = h_tabId h; aid = h_attachmentId h
          in (case h_pc h of
                H_config \<Rightarrow> None
              | H_finished r \<Rightarrow> None
              | H_fuse_sent fm \<Rightarrow> Some (finish hid (Skipped False ''safety_fuse'' (Some fm)) s)
              | H_queued_sent c a \<Rightarrow>
                  let s1 = markAutoProcessed tabId aid s;
                      s2 = s1\<lparr>handlers := (handlers s1)(hid \<mapsto> h\<lparr>h_markedSeen := True\<rparr>)\<rparr>;
                      (k, s3) = enqueueAutoUploadJob tabId aid c a s2
                  in Some (setHpc hid (H_job k) s3)
              | H_job k \<Rightarrow>
                  (case jobs s k of
                     None \<Rightarrow> None
                   | Some j \<Rightarrow>
                       (case j_pc j of
                          J_fulfilled \<Rightarrow> Some (finish hid (Accepted aid) s)
                        | J_rejected m \<Rightarrow> Some (catchBlock hid m s)
                        | _ \<Rightarrow> None))
              | H_cancelled_item_sent a \<Rightarrow>
                  if st_done (heap s a) \<ge> st_queued (heap s a) then
                    let s1 = clearPausedAndPending tabId s;
                        s2 = sendAutoUploadProgress tabId
                               (counts cancelled (Some aid) (heap s1 a)) s1
                    in Some (setHpc hid H_cancelled_sent s2)
                  else Some (finish hid (Skipped False ''cancelled'' None) s)
              | H_cancelled_sent \<Rightarrow>
                  let s1 = s\<lparr>cancelByTab := (cancelByTab s)(tabId := False)\<rparr>;
                      s2 = resetAutoUploadStatsLater tabId 12000 s1
                  in Some (finish hid (Skipped False ''cancelled'' None) s2)
              | H_error_item_sent a m \<Rightarrow>
                  if st_done (heap s a) \<ge> st_queued (heap s a) then
                    let s1 = clearPausedAndPending tabId s;
                        s2 = sendAutoUploadProgress tabId
                               (counts done_all (Some aid) (heap s1 a)) s1
                    in Some (setHpc hid (H_error_done_all_sent m) s2)
                  else Some (setHpc hid (H_error_tail m) s)
              | H_error_done_all_sent m \<Rightarrow>
                  Some (setHpc hid (H_error_tail m) (resetAutoUploadStatsLater tabId 16000 s))
              | H_error_tail m \<Rightarrow> Some (finish hid (Failed (errText m)) s)))"

subsection \<open>The job body\<close>

datatype pauseLoop = Throws | Sleeps | Returns

text \<open>One evaluation of the \<^verbatim>\<open>while\<close> of \<^verbatim>\<open>waitIfAutoUploadPaused\<close>.\<close>

definition waitIfAutoUploadPaused :: "tabId \<Rightarrow> sys \<Rightarrow> pauseLoop" where
  "waitIfAutoUploadPaused tabId s =
     (if pausedByTab s tabId then (if cancelByTab s tabId then Throws else Sleeps)
      else Returns)"

definition pauseStep :: "nat \<Rightarrow> tabId \<Rightarrow> sys \<Rightarrow> sys" where
  "pauseStep k tabId s =
     (case waitIfAutoUploadPaused tabId s of
        Throws \<Rightarrow> setJpc k (J_rejected AUTO_UPLOAD_CANCELLED) s
      | Sleeps \<Rightarrow> setJpc k J_pause_sleep s
      | Returns \<Rightarrow> setJpc k J_after_pause s)"

text \<open>The job starts once the promise it was chained onto has settled, whichever way.\<close>

definition jobStart :: "nat \<Rightarrow> sys \<Rightarrow> sys option" where
  "jobStart k s =
     (case jobs s k of
        None \<Rightarrow> None
      | Some j \<Rightarrow>
          if j_pc j = J_waiting \<and> (case j_prev j of None \<Rightarrow> True | Some p \<Rightarrow> settled s p)
          then Some (if cancelByTab s (j_tabId j)
                     then setJpc k (J_rejected AUTO_UPLOAD_CANCELLED) s
                     else pauseStep k (j_tabId j) s)
          else None)"

text \<open>From \<^verbatim>\<open>st.done += 1\<close> to the \<^verbatim>\<open>await\<close> of the \<^verbatim>\<open>done_item\<close> message; \<^verbatim>\<open>st\<close> is the
  object the closure captured.\<close>

definition markDone :: "nat \<Rightarrow> job \<Rightarrow> sys \<Rightarrow> sys" where
  "markDone k j s =
     (let s1 = updStats (j_st j) (\<lambda>st. st\<lparr>st_done := st_done st + 1, st_ok := st_ok st + 1,
                                           st_lastAt := now s\<rparr>) s;
          s2 = dequeueAutoPendingId (j_tabId j) (j_attachmentId j) s1;
          s3 = sendAutoUploadProgress (j_tabId j)
                 (counts done_item (Some (j_attachmentId j)) (heap s2 (j_st j))) s2
      in setJpc k J_done_item_sent s3)"

definition jobResume :: "nat \<Rightarrow> sys \<Rightarrow> sys option" where
  "jobResume k s =
     (case jobs s k of
        None \<Rightarrow> None
      | Some j \<Rightarrow>
          let tabId = j_tabId j; aid = j_attachmentId j
          in (case j_pc j of
                J_pause_sleep \<Rightarrow> Some (pauseStep k tabId s)
              | J_after_pause \<Rightarrow>
                  Some (if cancelByTab s tabId
                        then setJpc k (J_rejected AUTO_UPLOAD_CANCELLED) s
                        else setJpc k J_start_log s)
              | J_start_log \<Rightarrow>
                  Some (setJpc k J_processing_sent
                          (sendAutoUploadProgress tabId
                             (counts processing (Some aid) (heap s (j_st j))) s))
              | J_processing_sent \<Rightarrow> Some (setJpc k J_analyzing s)
              | J_deselect \<Rightarrow> Some (markDone k j s)
              | J_done_item_sent \<Rightarrow>
                  if st_done (heap s (j_st j)) \<ge> st_queued (heap s (j_st j)) then
                    let s1 = clearPausedAndPending tabId s;
                        s2 = sendAutoUploadProgress tabId
                               (counts done_all (Some aid) (heap s1 (j_st j))) s1
                    in Some (setJpc k J_done_all_sent s2)
                  else Some (setJpc k J_done_log s)
              | J_done_all_sent \<Rightarrow>
                  Some (setJpc k J_done_log (resetAutoUploadStatsLater tabId 14000 s))
              | J_done_log \<Rightarrow> Some (setJpc k J_fulfilled s)
              | _ \<Rightarrow> None))"

text \<open>\<^verbatim>\<open>analyzeImage\<close> resolves, or rejects with an error of message \<open>m\<close>.\<close>

definition analysisOk :: "nat \<Rightarrow> sys \<Rightarrow> sys option" where
  "analysisOk k s =
     (case jobs s k of
        None \<Rightarrow> None
      | Some j \<Rightarrow>
          if j_pc j = J_analyzing
          then Some (if cancelByTab s (j_tabId j)
                     then setJpc k (J_rejected AUTO_UPLOAD_CANCELLED) s
                     else setJpc k J_applying s)
          else None)"

definition analysisFailed :: "nat \<Rightarrow> string \<Rightarrow> sys \<Rightarrow> sys option" where
  "analysisFailed k m s =
     (case jobs s k of
        None \<Rightarrow> None
      | Some j \<Rightarrow> if j_pc j = J_analyzing then Some (setJpc k (J_rejected m) s) else None)"

text \<open>\<^verbatim>\<open>autoApplyAttachmentWithRetry(tabId, applyPayload, { attempts: 12, delayMs: 220 })\<close>
  returns, the content script having answered its calls as \<open>reply\<close> says.\<close>

definition applyReturns :: "nat \<Rightarrow> (nat \<Rightarrow> attempt) \<Rightarrow> sys \<Rightarrow> sys option" where
  "applyReturns k reply s =
     (case jobs s k of
        None \<Rightarrow> None
      | Some j \<Rightarrow>
          if j_pc j = J_applying then
            Some (if \<not> r_ok (autoApplyAttachmentWithRetry reply 12 220)
                  then setJpc k (J_rejected msg_apply_failed) s
                  else if autoDeselectProcessedOnAutoFill (j_cfg j)
                  then setJpc k J_deselect s
                  else markDone k j s)
          else None)"

subsection \<open>Cancel, pause and resume\<close>

definition onCancelMessage :: "tabId \<Rightarrow> sys \<Rightarrow> sys" where
  "onCancelMessage tabId s =
     (if tabId = None then s
      else
        let s1 = s\<lparr>cancelByTab := (cancelByTab s)(tabId := True),
                   pausedByTab := (pausedByTab s)(tabId := False)\<rparr>;
            (a, s2) = getAutoUploadStats tabId s1;
            drained = st_done (heap s2 a) \<ge> st_queued (heap s2 a);
            s3 = (if drained then s2\<lparr>cancelByTab := (cancelByTab s2)(tabId := False)\<rparr> else s2)
        in sendAutoUploadProgress tabId
             (counts (if drained then cancelled else cancel_request) None (heap s3 a)) s3)"

definition onPauseMessage :: "tabId \<Rightarrow> sys \<Rightarrow> sys" where
  "onPauseMessage tabId s =
     (if tabId = None then s
      else
        let s1 = s\<lparr>pausedByTab := (pausedByTab s)(tabId := True)\<rparr>;
            (a, s2) = getAutoUploadStats tabId s1
        in sendAutoUploadProgress tabId (counts paused None (heap s2 a)) s2)"

definition onResumeMessage :: "tabId \<Rightarrow> sys \<Rightarrow> sys" where
  "onResumeMessage tabId s =
     (if tabId = None then s
      else
        let s1 = s\<lparr>pausedByTab := (pausedByTab s)(tabId := False)\<rparr>;
            (a, s2) = getAutoUploadStats tabId s1
        in sendAutoUploadProgress tabId (counts resumed None (heap s2 a)) s2)"

subsection \<open>The event loop\<close>

datatype event =
    Tick int                                  \<comment> \<open>time passes\<close>
  | AutoProcessMessage tabId string string string
      \<comment> \<open>sender tab, page URL, attachment id, image URL\<close>
  | CancelMessage tabId
  | PauseMessage tabId
  | ResumeMessage tabId
  | ConfigReady nat cfg                       \<comment> \<open>\<^verbatim>\<open>getConfigCached\<close> resolves for a handler\<close>
  | ConfigFailed nat string                   \<comment> \<open>\<^verbatim>\<open>getConfigCached\<close> rejects for a handler\<close>
  | HandlerResume nat
  | JobStart nat
  | JobResume nat
  | AnalysisOk nat
  | AnalysisFailed nat string
  | ApplyReturns nat "nat \<Rightarrow> attempt"
  | TimerFire nat                             \<comment> \<open>the timer at this index of \<open>timers\<close> fires\<close>

definition atConfig :: "nat \<Rightarrow> sys \<Rightarrow> bool" where
  "atConfig hid s = (case handlers s hid of None \<Rightarrow> False | Some h \<Rightarrow> h_pc h = H_config)"

definition timerFire :: "nat \<Rightarrow> sys \<Rightarrow> sys option" where
  "timerFire i s =
     (if i < length (timers s) then
        (case timers s ! i of
           (tabId, delayMs, due) \<Rightarrow>
             if due \<le> now s
             then Some (resetTimerCallback tabId delayMs
                          (s\<lparr>timers := take i (timers s) @ drop (Suc i) (timers s)\<rparr>))
             else None)
      else None)"

fun step :: "event \<Rightarrow> sys \<Rightarrow> sys option" where
  "step (Tick d) s = (if 0 \<le> d then Some (s\<lparr>now := now s + d\<rparr>) else None)"
| "step (AutoProcessMessage tabId pageUrl aid imageUrl) s =
     Some (onAutoProcessMessage tabId pageUrl aid imageUrl s)"
| "step (CancelMessage tabId) s = Some (onCancelMessage tabId s)"
| "step (PauseMessage tabId) s = Some (onPauseMessage tabId s)"
| "step (ResumeMessage tabId) s = Some (onResumeMessage tabId s)"
| "step (ConfigReady hid c) s = (if atConfig hid s then Some (admit hid c s) else None)"
| "step (ConfigFailed hid m) s = (if atConfig hid s then Some (catchBlock hid m s) else None)"
| "step (HandlerResume hid) s = handlerResume hid s"
| "step (JobStart k) s = jobStart k s"
| "step (JobResume k) s = jobResume k s"
| "step (AnalysisOk k) s = analysisOk k s"
| "step (AnalysisFailed k m) s = analysisFailed k m s"
| "step (ApplyReturns k reply) s = applyReturns k reply s"
| "step (TimerFire i) s = timerFire i s"

fun run :: "event list \<Rightarrow> sys \<Rightarrow> sys option" where
  "run [] s = Some s"
| "run (e # es) s = (case step e s of None \<Rightarrow> None | Some s' \<Rightarrow> run es s')"

text \<open>The service worker has just started, at time \<open>t0\<close>: every map is empty.\<close>

definition init :: "int \<Rightarrow> sys" where
  "init t0 =
     \<lparr>now = t0,
      heap = (\<lambda>a. \<lparr>st_queued = 0, st_done = 0, st_ok = 0, st_error = 0,
                   st_startedAt = 0, st_lastAt = 0\<rparr>),
      nalloc = 0, statsByTab = Map.empty, seenByTab = Map.empty,
      cancelByTab = (\<lambda>t. False), pausedByTab = (\<lambda>t. False),
      pendingIdsByTab = Map.empty, queueByTab = Map.empty,
      jobs = Map.empty, njobs = 0, handlers = Map.empty, nhandlers = 0,
      timers = [], sent = []\<rparr>"

inductive reachable :: "sys \<Rightarrow> bool" where
  reach_init: "0 < t0 \<Longrightarrow> reachable (init t0)"
| reach_step: "reachable s \<Longrightarrow> step e s = Some s' \<Longrightarrow> reachable s'"

subsection \<open>The upload signal tracker of the content script\<close>

record meta =
  firstSeenAt :: int
  sawUploading :: bool
  triggered :: bool
  retries :: int
  initialScan :: bool

text \<open>The object \<^verbatim>\<open>AUTO_UPLOAD\<close>; the \<^verbatim>\<open>Map\<close> \<^verbatim>\<open>byId\<close> is a list of entries in insertion
  order, one per key.\<close>

record autoUpload =
  startedAt :: int
  minAgeMs :: int
  uploadSignalWindowMs :: int
  uploadSessionStartAt :: int
  lastUploadingSignalAt :: int
  byId :: "(string \<times> meta) list"

text \<open>\<^verbatim>\<open>AUTO_UPLOAD\<close> as the script creates it when it is loaded at time \<open>t\<close>.\<close>

definition AUTO_UPLOAD :: "int \<Rightarrow> autoUpload" where
  "AUTO_UPLOAD t =
     \<lparr>startedAt = t, minAgeMs = 1000, uploadSignalWindowMs = 45000,
      uploadSessionStartAt = 0, lastUploadingSignalAt = 0, byId = []\<rparr>"

record autoUploadSettings =
  autoAnalyzeOnSelectMedia :: bool
  autoQueueModeVisible :: bool

text \<open>What the tracker reads of an \<^verbatim>\<open>li.attachment\<close> element: its \<^verbatim>\<open>data-id\<close>, its class
  attribute, whether it matches the selectors of \<^verbatim>\<open>isSelectedAttachmentEl\<close>, and the image
  URL the candidate extraction ends with (empty when it finds none).\<close>

record attachmentEl =
  data_id :: string
  className :: string
  isSelectedAttachmentEl :: bool
  candidateImageUrl :: string

definition hasRecentUploadSignal :: "int \<Rightarrow> autoUpload \<Rightarrow> bool" where
  "hasRecentUploadSignal t A = (t - lastUploadingSignalAt A \<le> uploadSignalWindowMs A)"

definition markUploadSignal :: "int \<Rightarrow> autoUpload \<Rightarrow> autoUpload" where
  "markUploadSignal t A =
     (let wasRecent = (t - lastUploadingSignalAt A \<le> uploadSignalWindowMs A);
          A1 = (if \<not> wasRecent then A\<lparr>uploadSessionStartAt := t\<rparr> else A)
      in A1\<lparr>lastUploadingSignalAt := t\<rparr>)"

text \<open>\<^verbatim>\<open>/\bupload/i.test(cls)\<close>: the letters of "upload" in either case, at the start of the
  text or after a character that is not a letter, a digit or an underscore.\<close>

definition isWordChar :: "char \<Rightarrow> bool" where
  "isWordChar c =
     (let n = of_char c :: nat
      in (48 \<le> n \<and> n \<le> 57) \<or> (65 \<le> n \<and> n \<le> 90) \<or> (97 \<le> n \<and> n \<le> 122) \<or> n = 95)"

definition lowerChar :: "char \<Rightarrow> char" where
  "lowerChar c =
     (let n = of_char c :: nat in if 65 \<le> n \<and> n \<le> 90 then char_of (n + 32) else c)"

fun uploadWordFrom :: "bool \<Rightarrow> string \<Rightarrow> bool" where
  "uploadWordFrom prevWord [] = False"
| "uploadWordFrom prevWord (c # cs) =
     ((\<not> prevWord \<and> map lowerChar (take 6 (c # cs)) = ''upload'')
      \<or> uploadWordFrom (isWordChar c) cs)"

definition hasUploadClass :: "string \<Rightarrow> bool" where
  "hasUploadClass cls = uploadWordFrom False cls"

fun setMeta :: "string \<Rightarrow> meta \<Rightarrow> (string \<times> meta) list \<Rightarrow> (string \<times> meta) list" where
  "setMeta k m [] = [(k, m)]"
| "setMeta k m ((k', m') # es) = (if k' = k then (k, m) # es else (k', m') # setMeta k m es)"

text \<open>\<^verbatim>\<open>noteAttachmentMeta_tracker(el, { initial })\<close>: the id and the entry it returns, and the
  tracker after it.\<close>

definition noteAttachmentMeta_tracker ::
  "int \<Rightarrow> bool \<Rightarrow> attachmentEl \<Rightarrow> autoUpload \<Rightarrow> (string \<times> meta) option \<times> autoUpload" where
  "noteAttachmentMeta_tracker t initial el A =
     (let ident = data_id el
      in if ident = [] then (None, A)
         else
           let m0 = (case map_of (byId A) ident of
                       None \<Rightarrow> \<lparr>firstSeenAt = t, sawUploading = False, triggered = False,
                                retries = 0, initialScan = initial\<rparr>
                     | Some m \<Rightarrow> if initial \<and> initialScan m \<noteq> False
                                then m\<lparr>initialScan := True\<rparr> else m)
           in if hasUploadClass (className el)
              then let m1 = m0\<lparr>sawUploading := True\<rparr>
                   in (Some (ident, m1), markUploadSignal t (A\<lparr>byId := setMeta ident m1 (byId A)\<rparr>))
              else (Some (ident, m0), A\<lparr>byId := setMeta ident m0 (byId A)\<rparr>))"

definition countedAsUpload :: "int \<Rightarrow> int \<Rightarrow> autoUpload \<Rightarrow> meta \<Rightarrow> bool" where
  "countedAsUpload t windowMs A m =
     (let seenAt = firstSeenAt m
      in if seenAt = 0 then False
         else if \<not> (t - seenAt \<le> windowMs) then False
         else
           let inUploadSession = (hasRecentUploadSignal t A \<and> uploadSessionStartAt A > 0);
               inferredBySession = (inUploadSession \<and> \<not> initialScan m
                                    \<and> seenAt \<ge> uploadSessionStartAt A - 1000)
           in if \<not> sawUploading m \<and> \<not> inferredBySession then False
              else t - firstSeenAt m \<le> windowMs)"

definition countRecentUploadMarked :: "int \<Rightarrow> int \<Rightarrow> autoUpload \<Rightarrow> nat" where
  "countRecentUploadMarked t windowMs A =
     length (filter (countedAsUpload t windowMs A) (map snd (byId A)))"

text \<open>The two gates of \<^verbatim>\<open>maybeAutoProcessUploadedAttachment_tracker\<close>; \<open>lastSelect\<close> is
  \<^verbatim>\<open>LAST_USER_SELECT_AT\<close>.\<close>

definition allowBatchUploadFlow :: "int \<Rightarrow> autoUpload \<Rightarrow> meta \<Rightarrow> bool" where
  "allowBatchUploadFlow t A m =
     (let fromUpload = sawUploading m;
          looksLikeNewAfterBoot = (\<not> initialScan m \<and> firstSeenAt m > startedAt A + 3000);
          isMultiUpload = (countRecentUploadMarked t (uploadSignalWindowMs A) A \<ge> 2);
          inUploadSession = (hasRecentUploadSignal t A \<and> uploadSessionStartAt A > 0)
      in isMultiUpload \<and> inUploadSession \<and> (fromUpload \<or> looksLikeNewAfterBoot))"

definition allowSelectFeature ::
  "int \<Rightarrow> autoUploadSettings \<Rightarrow> int \<Rightarrow> attachmentEl \<Rightarrow> bool" where
  "allowSelectFeature t cfgSel lastSelect el =
     (let userJustSelected = (t - lastSelect < 3000)
      in autoAnalyzeOnSelectMedia cfgSel \<and> isSelectedAttachmentEl el \<and> userJustSelected)"

datatype autoProcessOutcome =
    Returned
  | Sent string string   \<comment> \<open>\<^verbatim>\<open>MACA_AUTO_PROCESS_ATTACHMENT\<close> sent with this id and image URL\<close>

definition maybeAutoProcessUploadedAttachment_tracker ::
  "int \<Rightarrow> autoUploadSettings \<Rightarrow> int \<Rightarrow> attachmentEl \<Rightarrow> autoUpload
     \<Rightarrow> autoProcessOutcome \<times> autoUpload" where
  "maybeAutoProcessUploadedAttachment_tracker t cfgSel lastSelect el A =
     (case noteAttachmentMeta_tracker t False el A of
        (None, A1) \<Rightarrow> (Returned, A1)
      | (Some (ident, m), A1) \<Rightarrow>
          if triggered m then (Returned, A1)
          else if \<not> (allowBatchUploadFlow t A1 m \<or> allowSelectFeature t cfgSel lastSelect el)
          then (Returned, A1)
          else if t - firstSeenAt m < minAgeMs A1 then (Returned, A1)
          else if candidateImageUrl el = [] then (Returned, A1)
          else (Sent ident (candidateImageUrl el),
                A1\<lparr>byId := setMeta ident (m\<lparr>triggered := True\<rparr>) (byId A1)\<rparr>))"

subsection \<open>The upload gate of the copy without the tracker\<close>

text \<open>The copy at \<^verbatim>\<open>src/context_helper.js\<close> (lines 8-12 and 448-515) has no upload signal tracker: its
  \<^verbatim>\<open>AUTO_UPLOAD\<close> holds \<^verbatim>\<open>startedAt\<close>, \<^verbatim>\<open>minAgeMs\<close> and \<^verbatim>\<open>byId\<close> only and its entries have no
  \<^verbatim>\<open>initialScan\<close>. Its two functions are modelled on the same records and leave the
  fields it does not have as they are.\<close>

definition noteAttachmentMeta ::
  "int \<Rightarrow> attachmentEl \<Rightarrow> autoUpload \<Rightarrow> (string \<times> meta) option \<times> autoUpload" where
  "noteAttachmentMeta t el A =
     (let ident = data_id el
      in if ident = [] then (None, A)
         else
           let m0 = (case map_of (byId A) ident of
                       None \<Rightarrow> \<lparr>firstSeenAt = t, sawUploading = False, triggered = False,
                                retries = 0, initialScan = False\<rparr>
                     | Some m \<Rightarrow> m);
               m1 = (if hasUploadClass (className el) then m0\<lparr>sawUploading := True\<rparr> else m0)
           in (Some (ident, m1), A\<lparr>byId := setMeta ident m1 (byId A)\<rparr>))"

definition maybeAutoProcessUploadedAttachment ::
  "int \<Rightarrow> attachmentEl \<Rightarrow> autoUpload \<Rightarrow> autoProcessOutcome \<times> autoUpload" where
  "maybeAutoProcessUploadedAttachment t el A =
     (case noteAttachmentMeta t el A of
        (None, A1) \<Rightarrow> (Returned, A1)
      | (Some (ident, m), A1) \<Rightarrow>
          if triggered m then (Returned, A1)
          else
            let selected = isSelectedAttachmentEl el;
                looksLikeNewAfterBoot = (firstSeenAt m > startedAt A1 + 3000)
            in if \<not> sawUploading m \<and> (\<not> looksLikeNewAfterBoot \<or> \<not> selected)
               then (Returned, A1)
               else if t - firstSeenAt m < minAgeMs A1 then (Returned, A1)
               else if candidateImageUrl el = [] then (Returned, A1)
               else (Sent ident (candidateImageUrl el),
                     A1\<lparr>byId := setMeta ident (m\<lparr>triggered := True\<rparr>) (byId A1)\<rparr>))"

subsection \<open>Notions used to state the properties\<close>

text \<open>The pending ids of a tab, the empty list when the map has no entry for it.\<close>

definition pendingOf :: "sys \<Rightarrow> tabId \<Rightarrow> string list" where
  "pendingOf s t = (case pendingIdsByTab s t of None \<Rightarrow> [] | Some l \<Rightarrow> l)"

text \<open>The address \<^verbatim>\<open>getAutoUploadStats\<close> returns for a tab and the object it finds there:
  the one the map holds, or the fresh one it would create.\<close>

definition addrOf :: "sys \<Rightarrow> tabId \<Rightarrow> nat" where
  "addrOf s t = (case statsByTab s t of None \<Rightarrow> nalloc s | Some a \<Rightarrow> a)"

definition statsOf :: "sys \<Rightarrow> tabId \<Rightarrow> stats" where
  "statsOf s t =
     (case statsByTab s t of
        None \<Rightarrow> \<lparr>st_queued = 0, st_done = 0, st_ok = 0, st_error = 0,
                 st_startedAt = now s, st_lastAt = now s\<rparr>
      | Some a \<Rightarrow> heap s a)"

text \<open>An attempt reports at least one of the three fields as set.\<close>

definition succeeds :: "attempt \<Rightarrow> bool" where
  "succeeds a = (case a of Replied r \<Rightarrow> appliedOk r | Threw m \<Rightarrow> False)"

definition lastResOf :: "attempt \<Rightarrow> lastRes" where
  "lastResOf a = (case a of Replied r \<Rightarrow> Response r | Threw m \<Rightarrow> CaughtError (errText m))"

text \<open>Where a handler or a job stands, and the time stamp the seen registry holds for an
  attachment of a tab.\<close>

definition pcOf :: "sys \<Rightarrow> nat \<Rightarrow> hpc option" where
  "pcOf s hid = map_option h_pc (handlers s hid)"

definition jpcOf :: "sys \<Rightarrow> nat \<Rightarrow> jpc option" where
  "jpcOf s k = map_option j_pc (jobs s k)"

definition seenAt :: "sys \<Rightarrow> tabId \<Rightarrow> string \<Rightarrow> int option" where
  "seenAt s t a = (case seenByTab s t of None \<Rightarrow> None | Some b \<Rightarrow> b a)"

subsection \<open>Example runs\<close>

text \<open>Concrete inputs and runs at which the properties below are exercised.\<close>

definition exampleCfg :: cfg where
  "exampleCfg = \<lparr>wpAutoAnalyzeOnUpload = True, autoUploadSafetyFuseEnabled = Some True,
           autoUploadSafetyFuseMaxQueued = Some 24, autoDeselectProcessedOnAutoFill = False\<rparr>"

definition replyThirdTime :: "nat \<Rightarrow> attempt" where
  "replyThirdTime i =
     (if i < 2 then Threw ''Could not establish connection.''
      else Replied (Some \<lparr>alt = False, title = True, leyenda = False\<rparr>))"

definition replyNever :: "nat \<Rightarrow> attempt" where
  "replyNever i = Replied (Some \<lparr>alt = False, title = False, leyenda = False\<rparr>)"

definition wpUrl :: string where
  "wpUrl = ''http://h/wp-admin/''"

definition toApplying :: "event list" where
  "toApplying =
     [AutoProcessMessage (Some 7) wpUrl ''1'' ''u1'',
      ConfigReady 0 exampleCfg, HandlerResume 0, JobStart 0, JobResume 0, JobResume 0,
      JobResume 0, AnalysisOk 0]"

definition atApplying :: sys where
  "atApplying = the (run toApplying (init 1000))"

definition bootTime :: int where
  "bootTime = 1700000000000"

definition uploadingEl :: "string \<Rightarrow> attachmentEl" where
  "uploadingEl ident =
     \<lparr>data_id = ident, className = ''attachment uploading save-ready'',
      isSelectedAttachmentEl = False,
      candidateImageUrl = ''https://example.org/wp-content/uploads/'' @ ident @ ''.png''\<rparr>"

definition selectOff :: autoUploadSettings where
  "selectOff = \<lparr>autoAnalyzeOnSelectMedia = False, autoQueueModeVisible = True\<rparr>"

text \<open>Two tiles with the class \<^verbatim>\<open>uploading\<close> are noted 5 s after the script was loaded.\<close>

definition twoUploading :: autoUpload where
  "twoUploading =
     snd (noteAttachmentMeta_tracker (bootTime + 5000) False (uploadingEl ''12'')
       (snd (noteAttachmentMeta_tracker (bootTime + 5000) False (uploadingEl ''11'')
          (AUTO_UPLOAD bootTime))))"

text \<open>A tile without any upload class.\<close>

definition plainEl :: "string \<Rightarrow> attachmentEl" where
  "plainEl ident =
     \<lparr>data_id = ident, className = ''attachment save-ready'',
      isSelectedAttachmentEl = False, candidateImageUrl = ''u'' @ ident\<rparr>"

text \<open>A file is dropped on the uploader 4 s after the script was loaded, and two tiles
  without an upload class appear a second later.\<close>

definition twoPlainAfterSignal :: autoUpload where
  "twoPlainAfterSignal =
     snd (noteAttachmentMeta_tracker (bootTime + 5000) False (plainEl ''22'')
       (snd (noteAttachmentMeta_tracker (bootTime + 5000) False (plainEl ''21'')
          (markUploadSignal (bootTime + 4000) (AUTO_UPLOAD bootTime)))))"

text \<open>In the copy without the tracker, one tile with the class \<^verbatim>\<open>uploading\<close> is noted.\<close>

definition oneUploading :: autoUpload where
  "oneUploading =
     snd (noteAttachmentMeta (bootTime + 5000) (uploadingEl ''11'') (AUTO_UPLOAD bootTime))"

text \<open>Three attachments of tab 7 pass the admission, one after the other.\<close>

definition threeQueued :: "event list" where
  "threeQueued =
     [AutoProcessMessage (Some 7) wpUrl ''1'' ''u1'',
      ConfigReady 0 exampleCfg,
      AutoProcessMessage (Some 7) wpUrl ''2'' ''u2'',
      ConfigReady 1 exampleCfg,
      AutoProcessMessage (Some 7) wpUrl ''3'' ''u3'',
      ConfigReady 2 exampleCfg]"

definition afterThree :: sys where
  "afterThree = the (run threeQueued (init 1000))"

text \<open>An attachment of tab 7 is admitted and its job chained; the user cancels before the
  job starts, so the job throws at its first check. Then the content script asks for the
  same attachment again.\<close>

definition cancelledBeforeStart :: "event list" where
  "cancelledBeforeStart =
     [AutoProcessMessage (Some 7) wpUrl ''1'' ''u1'', ConfigReady 0 exampleCfg, HandlerResume 0,
      CancelMessage (Some 7), JobStart 0,
      AutoProcessMessage (Some 7) wpUrl ''1'' ''u1'']"

definition afterCancelledStart :: sys where
  "afterCancelledStart = the (run cancelledBeforeStart (init 1000))"



text \<open>No pending list holds an id twice or the empty id, and no message sent carries a
  preview longer than 8 or with such an id.\<close>

definition pendingInv :: "sys \<Rightarrow> bool" where
  "pendingInv s =
     ((\<forall>t. distinct (pendingOf s t) \<and> [] \<notin> set (pendingOf s t))
      \<and> (\<forall>m \<in> set (sent s).
            length (m_queue m) \<le> 8 \<and> distinct (m_queue m) \<and> [] \<notin> set (m_queue m)))"

section \<open>Properties\<close>

subsection \<open>What each operation changes\<close>

lemma getAutoPendingIds_eq:
  "getAutoPendingIds t s =
     (pendingOf s t, s\<lparr>pendingIdsByTab := (pendingIdsByTab s)(t \<mapsto> pendingOf s t)\<rparr>)"
  by (simp add: getAutoPendingIds_def pendingOf_def map_upd_triv split: option.splits)

lemma enqueueAutoPendingId_eq:
  "enqueueAutoPendingId t a s =
     (if a = [] then s
      else s\<lparr>pendingIdsByTab := (pendingIdsByTab s)(t \<mapsto>
                 (if a \<in> set (pendingOf s t) then pendingOf s t else pendingOf s t @ [a]))\<rparr>)"
  by (simp add: enqueueAutoPendingId_def getAutoPendingIds_eq)

lemma dequeueAutoPendingId_eq:
  "dequeueAutoPendingId t a s =
     (if a = [] then s
      else s\<lparr>pendingIdsByTab := (pendingIdsByTab s)(t \<mapsto> remove1 a (pendingOf s t))\<rparr>)"
  by (simp add: dequeueAutoPendingId_def getAutoPendingIds_eq)

lemma sendAutoUploadProgress_eq:
  "sendAutoUploadProgress t p s =
     s\<lparr>pendingIdsByTab := (pendingIdsByTab s)(t \<mapsto> pendingOf s t),
       sent := sent s @ [\<lparr>m_tab = t, m_queue = take 8 (pendingOf s t),
                          m_paused = pausedByTab s t, m_payload = p\<rparr>]\<rparr>"
  by (simp add: sendAutoUploadProgress_def queuePreviewFromTab_def toInt32_def getAutoPendingIds_eq)

lemma getAutoUploadStats_eq:
  "getAutoUploadStats t s =
     (addrOf s t,
      s\<lparr>heap := (heap s)(addrOf s t := (statsOf s t)\<lparr>st_lastAt := now s\<rparr>),
        nalloc := (if statsByTab s t = None then Suc (nalloc s) else nalloc s),
        statsByTab := (statsByTab s)(t \<mapsto> addrOf s t)\<rparr>)"
  by (simp add: getAutoUploadStats_def addrOf_def statsOf_def map_upd_triv split: option.splits)

lemma unmarkAutoProcessed_eq:
  "unmarkAutoProcessed t a s =
     s\<lparr>seenByTab :=
         (if t = None \<or> a = [] then seenByTab s
          else (case seenByTab s t of
                  None \<Rightarrow> seenByTab s
                | Some b \<Rightarrow> (seenByTab s)(t \<mapsto> b(a := None))))\<rparr>"
  by (simp add: unmarkAutoProcessed_def split: option.splits)

lemma markAutoProcessed_eq:
  "markAutoProcessed t a s =
     s\<lparr>seenByTab :=
         (if t = None \<or> a = [] then seenByTab s
          else (seenByTab s)(t \<mapsto>
                 (case seenByTab s t of None \<Rightarrow> Map.empty | Some m \<Rightarrow> m)(a \<mapsto> now s)))\<rparr>"
  by (simp add: markAutoProcessed_def Let_def)

lemma wasRecentlyAutoProcessed_snd:
  "snd (wasRecentlyAutoProcessed t a ttl s) =
     s\<lparr>seenByTab :=
         (case seenByTab s t of
            None \<Rightarrow> seenByTab s
          | Some b \<Rightarrow> (seenByTab s)(t \<mapsto>
               (\<lambda>k. case b k of None \<Rightarrow> None
                               | Some ts \<Rightarrow> if now s - ts > ttl then None else Some ts)))\<rparr>"
  by (simp add: wasRecentlyAutoProcessed_def Let_def split: option.splits)

lemma wasRecentlyAutoProcessed_fst:
  "fst (wasRecentlyAutoProcessed t a ttl s) =
     (a \<noteq> [] \<and>
      (case seenByTab s t of
         None \<Rightarrow> False
       | Some b \<Rightarrow> (case b a of None \<Rightarrow> False
                             | Some ts \<Rightarrow> ts \<noteq> 0 \<and> now s - ts \<le> ttl)))"
  by (simp add: wasRecentlyAutoProcessed_def Let_def split: option.splits)

lemma setHpc_eq:
  "setHpc hid pc s =
     s\<lparr>handlers := (case handlers s hid of
                       None \<Rightarrow> handlers s
                     | Some h \<Rightarrow> (handlers s)(hid \<mapsto> h\<lparr>h_pc := pc\<rparr>))\<rparr>"
  by (simp add: setHpc_def split: option.splits)

lemma setJpc_eq:
  "setJpc k pc s =
     s\<lparr>jobs := (case jobs s k of
                   None \<Rightarrow> jobs s
                 | Some j \<Rightarrow> (jobs s)(k \<mapsto> j\<lparr>j_pc := pc\<rparr>))\<rparr>"
  by (simp add: setJpc_def split: option.splits)

lemma resetTimerCallback_eq:
  "resetTimerCallback t d s =
     s\<lparr>statsByTab :=
         (case statsByTab s t of
            None \<Rightarrow> statsByTab s
          | Some a \<Rightarrow> if now s - st_lastAt (heap s a) < d - 500 then statsByTab s
                      else (statsByTab s)(t := None))\<rparr>"
  by (simp add: resetTimerCallback_def split: option.splits)

lemma getAutoPendingIds_frame [simp]:
  "now (snd (getAutoPendingIds t s)) = now s"
  "heap (snd (getAutoPendingIds t s)) = heap s"
  "nalloc (snd (getAutoPendingIds t s)) = nalloc s"
  "statsByTab (snd (getAutoPendingIds t s)) = statsByTab s"
  "seenByTab (snd (getAutoPendingIds t s)) = seenByTab s"
  "cancelByTab (snd (getAutoPendingIds t s)) = cancelByTab s"
  "pausedByTab (snd (getAutoPendingIds t s)) = pausedByTab s"
  "queueByTab (snd (getAutoPendingIds t s)) = queueByTab s"
  "jobs (snd (getAutoPendingIds t s)) = jobs s"
  "njobs (snd (getAutoPendingIds t s)) = njobs s"
  "handlers (snd (getAutoPendingIds t s)) = handlers s"
  "nhandlers (snd (getAutoPendingIds t s)) = nhandlers s"
  "timers (snd (getAutoPendingIds t s)) = timers s"
  "sent (snd (getAutoPendingIds t s)) = sent s"
  by (simp_all add: getAutoPendingIds_eq)

lemma enqueueAutoPendingId_frame [simp]:
  "now (enqueueAutoPendingId t a s) = now s"
  "heap (enqueueAutoPendingId t a s) = heap s"
  "nalloc (enqueueAutoPendingId t a s) = nalloc s"
  "statsByTab (enqueueAutoPendingId t a s) = statsByTab s"
  "seenByTab (enqueueAutoPendingId t a s) = seenByTab s"
  "cancelByTab (enqueueAutoPendingId t a s) = cancelByTab s"
  "pausedByTab (enqueueAutoPendingId t a s) = pausedByTab s"
  "queueByTab (enqueueAutoPendingId t a s) = queueByTab s"
  "jobs (enqueueAutoPendingId t a s) = jobs s"
  "njobs (enqueueAutoPendingId t a s) = njobs s"
  "handlers (enqueueAutoPendingId t a s) = handlers s"
  "nhandlers (enqueueAutoPendingId t a s) = nhandlers s"
  "timers (enqueueAutoPendingId t a s) = timers s"
  "sent (enqueueAutoPendingId t a s) = sent s"
  by (simp_all add: enqueueAutoPendingId_eq)

lemma dequeueAutoPendingId_frame [simp]:
  "now (dequeueAutoPendingId t a s) = now s"
  "heap (dequeueAutoPendingId t a s) = heap s"
  "nalloc (dequeueAutoPendingId t a s) = nalloc s"
  "statsByTab (dequeueAutoPendingId t a s) = statsByTab s"
  "seenByTab (dequeueAutoPendingId t a s) = seenByTab s"
  "cancelByTab (dequeueAutoPendingId t a s) = cancelByTab s"
  "pausedByTab (dequeueAutoPendingId t a s) = pausedByTab s"
  "queueByTab (dequeueAutoPendingId t a s) = queueByTab s"
  "jobs (dequeueAutoPendingId t a s) = jobs s"
  "njobs (dequeueAutoPendingId t a s) = njobs s"
  "handlers (dequeueAutoPendingId t a s) = handlers s"
  "nhandlers (dequeueAutoPendingId t a s) = nhandlers s"
  "timers (dequeueAutoPendingId t a s) = timers s"
  "sent (dequeueAutoPendingId t a s) = sent s"
  by (simp_all add: dequeueAutoPendingId_eq)

lemma sendAutoUploadProgress_frame [simp]:
  "now (sendAutoUploadProgress t p s) = now s"
  "heap (sendAutoUploadProgress t p s) = heap s"
  "nalloc (sendAutoUploadProgress t p s) = nalloc s"
  "statsByTab (sendAutoUploadProgress t p s) = statsByTab s"
  "seenByTab (sendAutoUploadProgress t p s) = seenByTab s"
  "cancelByTab (sendAutoUploadProgress t p s) = cancelByTab s"
  "pausedByTab (sendAutoUploadProgress t p s) = pausedByTab s"
  "queueByTab (sendAutoUploadProgress t p s) = queueByTab s"
  "jobs (sendAutoUploadProgress t p s) = jobs s"
  "njobs (sendAutoUploadProgress t p s) = njobs s"
  "handlers (sendAutoUploadProgress t p s) = handlers s"
  "nhandlers (sendAutoUploadProgress t p s) = nhandlers s"
  "timers (sendAutoUploadProgress t p s) = timers s"
  by (simp_all add: sendAutoUploadProgress_eq)

lemma getAutoUploadStats_frame [simp]:
  "now (snd (getAutoUploadStats t s)) = now s"
  "seenByTab (snd (getAutoUploadStats t s)) = seenByTab s"
  "cancelByTab (snd (getAutoUploadStats t s)) = cancelByTab s"
  "pausedByTab (snd (getAutoUploadStats t s)) = pausedByTab s"
  "pendingIdsByTab (snd (getAutoUploadStats t s)) = pendingIdsByTab s"
  "queueByTab (snd (getAutoUploadStats t s)) = queueByTab s"
  "jobs (snd (getAutoUploadStats t s)) = jobs s"
  "njobs (snd (getAutoUploadStats t s)) = njobs s"
  "handlers (snd (getAutoUploadStats t s)) = handlers s"
  "nhandlers (snd (getAutoUploadStats t s)) = nhandlers s"
  "timers (snd (getAutoUploadStats t s)) = timers s"
  "sent (snd (getAutoUploadStats t s)) = sent s"
  by (simp_all add: getAutoUploadStats_eq)

lemma unmarkAutoProcessed_frame [simp]:
  "now (unmarkAutoProcessed t a s) = now s"
  "heap (unmarkAutoProcessed t a s) = heap s"
  "nalloc (unmarkAutoProcessed t a s) = nalloc s"
  "statsByTab (unmarkAutoProcessed t a s) = statsByTab s"
  "cancelByTab (unmarkAutoProcessed t a s) = cancelByTab s"
  "pausedByTab (unmarkAutoProcessed t a s) = pausedByTab s"
  "pendingIdsByTab (unmarkAutoProcessed t a s) = pendingIdsByTab s"
  "queueByTab (unmarkAutoProcessed t a s) = queueByTab s"
  "jobs (unmarkAutoProcessed t a s) = jobs s"
  "njobs (unmarkAutoProcessed t a s) = njobs s"
  "handlers (unmarkAutoProcessed t a s) = handlers s"
  "nhandlers (unmarkAutoProcessed t a s) = nhandlers s"
  "timers (unmarkAutoProcessed t a s) = timers s"
  "sent (unmarkAutoProcessed t a s) = sent s"
  by (simp_all add: unmarkAutoProcessed_eq)

lemma markAutoProcessed_frame [simp]:
  "now (markAutoProcessed t a s) = now s"
  "heap (markAutoProcessed t a s) = heap s"
  "nalloc (markAutoProcessed t a s) = nalloc s"
  "statsByTab (markAutoProcessed t a s) = statsByTab s"
  "cancelByTab (markAutoProcessed t a s) = cancelByTab s"
  "pausedByTab (markAutoProcessed t a s) = pausedByTab s"
  "pendingIdsByTab (markAutoProcessed t a s) = pendingIdsByTab s"
  "queueByTab (markAutoProcessed t a s) = queueByTab s"
  "jobs (markAutoProcessed t a s) = jobs s"
  "njobs (markAutoProcessed t a s) = njobs s"
  "handlers (markAutoProcessed t a s) = handlers s"
  "nhandlers (markAutoProcessed t a s) = nhandlers s"
  "timers (markAutoProcessed t a s) = timers s"
  "sent (markAutoProcessed t a s) = sent s"
  by (simp_all add: markAutoProcessed_eq)

lemma wasRecentlyAutoProcessed_frame [simp]:
  "now (snd (wasRecentlyAutoProcessed t a ttl s)) = now s"
  "heap (snd (wasRecentlyAutoProcessed t a ttl s)) = heap s"
  "nalloc (snd (wasRecentlyAutoProcessed t a ttl s)) = nalloc s"
  "statsByTab (snd (wasRecentlyAutoProcessed t a ttl s)) = statsByTab s"
  "cancelByTab (snd (wasRecentlyAutoProcessed t a ttl s)) = cancelByTab s"
  "pausedByTab (snd (wasRecentlyAutoProcessed t a ttl s)) = pausedByTab s"
  "pendingIdsByTab (snd (wasRecentlyAutoProcessed t a ttl s)) = pendingIdsByTab s"
  "queueByTab (snd (wasRecentlyAutoProcessed t a ttl s)) = queueByTab s"
  "jobs (snd (wasRecentlyAutoProcessed t a ttl s)) = jobs s"
  "njobs (snd (wasRecentlyAutoProcessed t a ttl s)) = njobs s"
  "handlers (snd (wasRecentlyAutoProcessed t a ttl s)) = handlers s"
  "nhandlers (snd (wasRecentlyAutoProcessed t a ttl s)) = nhandlers s"
  "timers (snd (wasRecentlyAutoProcessed t a ttl s)) = timers s"
  "sent (snd (wasRecentlyAutoProcessed t a ttl s)) = sent s"
  by (simp_all add: wasRecentlyAutoProcessed_snd)

lemma updStats_frame [simp]:
  "now (updStats a f s) = now s"
  "nalloc (updStats a f s) = nalloc s"
  "statsByTab (updStats a f s) = statsByTab s"
  "seenByTab (updStats a f s) = seenByTab s"
  "cancelByTab (updStats a f s) = cancelByTab s"
  "pausedByTab (updStats a f s) = pausedByTab s"
  "pendingIdsByTab (updStats a f s) = pendingIdsByTab s"
  "queueByTab (updStats a f s) = queueByTab s"
  "jobs (updStats a f s) = jobs s"
  "njobs (updStats a f s) = njobs s"
  "handlers (updStats a f s) = handlers s"
  "nhandlers (updStats a f s) = nhandlers s"
  "timers (updStats a f s) = timers s"
  "sent (updStats a f s) = sent s"
  by (simp_all add: updStats_def)

lemma setHpc_frame [simp]:
  "now (setHpc hid pc s) = now s"
  "heap (setHpc hid pc s) = heap s"
  "nalloc (setHpc hid pc s) = nalloc s"
  "statsByTab (setHpc hid pc s) = statsByTab s"
  "seenByTab (setHpc hid pc s) = seenByTab s"
  "cancelByTab (setHpc hid pc s) = cancelByTab s"
  "pausedByTab (setHpc hid pc s) = pausedByTab s"
  "pendingIdsByTab (setHpc hid pc s) = pendingIdsByTab s"
  "queueByTab (setHpc hid pc s) = queueByTab s"
  "jobs (setHpc hid pc s) = jobs s"
  "njobs (setHpc hid pc s) = njobs s"
  "nhandlers (setHpc hid pc s) = nhandlers s"
  "timers (setHpc hid pc s) = timers s"
  "sent (setHpc hid pc s) = sent s"
  by (simp_all add: setHpc_eq)

lemma finish_frame [simp]:
  "now (finish hid r s) = now s"
  "heap (finish hid r s) = heap s"
  "nalloc (finish hid r s) = nalloc s"
  "statsByTab (finish hid r s) = statsByTab s"
  "seenByTab (finish hid r s) = seenByTab s"
  "cancelByTab (finish hid r s) = cancelByTab s"
  "pausedByTab (finish hid r s) = pausedByTab s"
  "pendingIdsByTab (finish hid r s) = pendingIdsByTab s"
  "queueByTab (finish hid r s) = queueByTab s"
  "jobs (finish hid r s) = jobs s"
  "njobs (finish hid r s) = njobs s"
  "nhandlers (finish hid r s) = nhandlers s"
  "timers (finish hid r s) = timers s"
  "sent (finish hid r s) = sent s"
  by (simp_all add: finish_def)

lemma setJpc_frame [simp]:
  "now (setJpc k pc s) = now s"
  "heap (setJpc k pc s) = heap s"
  "nalloc (setJpc k pc s) = nalloc s"
  "statsByTab (setJpc k pc s) = statsByTab s"
  "seenByTab (setJpc k pc s) = seenByTab s"
  "cancelByTab (setJpc k pc s) = cancelByTab s"
  "pausedByTab (setJpc k pc s) = pausedByTab s"
  "pendingIdsByTab (setJpc k pc s) = pendingIdsByTab s"
  "queueByTab (setJpc k pc s) = queueByTab s"
  "njobs (setJpc k pc s) = njobs s"
  "handlers (setJpc k pc s) = handlers s"
  "nhandlers (setJpc k pc s) = nhandlers s"
  "timers (setJpc k pc s) = timers s"
  "sent (setJpc k pc s) = sent s"
  by (simp_all add: setJpc_eq)

lemma clearPausedAndPending_frame [simp]:
  "now (clearPausedAndPending t s) = now s"
  "heap (clearPausedAndPending t s) = heap s"
  "nalloc (clearPausedAndPending t s) = nalloc s"
  "statsByTab (clearPausedAndPending t s) = statsByTab s"
  "seenByTab (clearPausedAndPending t s) = seenByTab s"
  "cancelByTab (clearPausedAndPending t s) = cancelByTab s"
  "queueByTab (clearPausedAndPending t s) = queueByTab s"
  "jobs (clearPausedAndPending t s) = jobs s"
  "njobs (clearPausedAndPending t s) = njobs s"
  "handlers (clearPausedAndPending t s) = handlers s"
  "nhandlers (clearPausedAndPending t s) = nhandlers s"
  "timers (clearPausedAndPending t s) = timers s"
  "sent (clearPausedAndPending t s) = sent s"
  by (simp_all add: clearPausedAndPending_def)

lemma resetAutoUploadStatsLater_frame [simp]:
  "now (resetAutoUploadStatsLater t d s) = now s"
  "heap (resetAutoUploadStatsLater t d s) = heap s"
  "nalloc (resetAutoUploadStatsLater t d s) = nalloc s"
  "statsByTab (resetAutoUploadStatsLater t d s) = statsByTab s"
  "seenByTab (resetAutoUploadStatsLater t d s) = seenByTab s"
  "cancelByTab (resetAutoUploadStatsLater t d s) = cancelByTab s"
  "pausedByTab (resetAutoUploadStatsLater t d s) = pausedByTab s"
  "pendingIdsByTab (resetAutoUploadStatsLater t d s) = pendingIdsByTab s"
  "queueByTab (resetAutoUploadStatsLater t d s) = queueByTab s"
  "jobs (resetAutoUploadStatsLater t d s) = jobs s"
  "njobs (resetAutoUploadStatsLater t d s) = njobs s"
  "handlers (resetAutoUploadStatsLater t d s) = handlers s"
  "nhandlers (resetAutoUploadStatsLater t d s) = nhandlers s"
  "sent (resetAutoUploadStatsLater t d s) = sent s"
  by (simp_all add: resetAutoUploadStatsLater_def)

lemma resetTimerCallback_frame [simp]:
  "now (resetTimerCallback t d s) = now s"
  "heap (resetTimerCallback t d s) = heap s"
  "nalloc (resetTimerCallback t d s) = nalloc s"
  "seenByTab (resetTimerCallback t d s) = seenByTab s"
  "cancelByTab (resetTimerCallback t d s) = cancelByTab s"
  "pausedByTab (resetTimerCallback t d s) = pausedByTab s"
  "pendingIdsByTab (resetTimerCallback t d s) = pendingIdsByTab s"
  "queueByTab (resetTimerCallback t d s) = queueByTab s"
  "jobs (resetTimerCallback t d s) = jobs s"
  "njobs (resetTimerCallback t d s) = njobs s"
  "handlers (resetTimerCallback t d s) = handlers s"
  "nhandlers (resetTimerCallback t d s) = nhandlers s"
  "timers (resetTimerCallback t d s) = timers s"
  "sent (resetTimerCallback t d s) = sent s"
  by (simp_all add: resetTimerCallback_eq)

lemma enqueueAutoUploadJob_frame [simp]:
  "now (snd (enqueueAutoUploadJob t a c st s)) = now s"
  "heap (snd (enqueueAutoUploadJob t a c st s)) = heap s"
  "nalloc (snd (enqueueAutoUploadJob t a c st s)) = nalloc s"
  "statsByTab (snd (enqueueAutoUploadJob t a c st s)) = statsByTab s"
  "seenByTab (snd (enqueueAutoUploadJob t a c st s)) = seenByTab s"
  "cancelByTab (snd (enqueueAutoUploadJob t a c st s)) = cancelByTab s"
  "pausedByTab (snd (enqueueAutoUploadJob t a c st s)) = pausedByTab s"
  "pendingIdsByTab (snd (enqueueAutoUploadJob t a c st s)) = pendingIdsByTab s"
  "handlers (snd (enqueueAutoUploadJob t a c st s)) = handlers s"
  "nhandlers (snd (enqueueAutoUploadJob t a c st s)) = nhandlers s"
  "timers (snd (enqueueAutoUploadJob t a c st s)) = timers s"
  "sent (snd (enqueueAutoUploadJob t a c st s)) = sent s"
  by (simp_all add: enqueueAutoUploadJob_def Let_def)

lemma pendingOf_frame [simp]:
  "pendingOf (s\<lparr>now := v1\<rparr>) t = pendingOf s t"
  "pendingOf (s\<lparr>heap := v2\<rparr>) t = pendingOf s t"
  "pendingOf (s\<lparr>nalloc := v3\<rparr>) t = pendingOf s t"
  "pendingOf (s\<lparr>statsByTab := v4\<rparr>) t = pendingOf s t"
  "pendingOf (s\<lparr>seenByTab := v5\<rparr>) t = pendingOf s t"
  "pendingOf (s\<lparr>cancelByTab := v6\<rparr>) t = pendingOf s t"
  "pendingOf (s\<lparr>pausedByTab := v7\<rparr>) t = pendingOf s t"
  "pendingOf (s\<lparr>queueByTab := v8\<rparr>) t = pendingOf s t"
  "pendingOf (s\<lparr>jobs := v9\<rparr>) t = pendingOf s t"
  "pendingOf (s\<lparr>njobs := v10\<rparr>) t = pendingOf s t"
  "pendingOf (s\<lparr>handlers := v11\<rparr>) t = pendingOf s t"
  "pendingOf (s\<lparr>nhandlers := v12\<rparr>) t = pendingOf s t"
  "pendingOf (s\<lparr>timers := v13\<rparr>) t = pendingOf s t"
  "pendingOf (s\<lparr>sent := v14\<rparr>) t = pendingOf s t"
  by (simp_all add: pendingOf_def split: option.split)

lemma statsOf_frame [simp]:
  "statsOf (s\<lparr>nalloc := v1\<rparr>) t = statsOf s t"
  "statsOf (s\<lparr>seenByTab := v2\<rparr>) t = statsOf s t"
  "statsOf (s\<lparr>cancelByTab := v3\<rparr>) t = statsOf s t"
  "statsOf (s\<lparr>pausedByTab := v4\<rparr>) t = statsOf s t"
  "statsOf (s\<lparr>pendingIdsByTab := v5\<rparr>) t = statsOf s t"
  "statsOf (s\<lparr>queueByTab := v6\<rparr>) t = statsOf s t"
  "statsOf (s\<lparr>jobs := v7\<rparr>) t = statsOf s t"
  "statsOf (s\<lparr>njobs := v8\<rparr>) t = statsOf s t"
  "statsOf (s\<lparr>handlers := v9\<rparr>) t = statsOf s t"
  "statsOf (s\<lparr>nhandlers := v10\<rparr>) t = statsOf s t"
  "statsOf (s\<lparr>timers := v11\<rparr>) t = statsOf s t"
  "statsOf (s\<lparr>sent := v12\<rparr>) t = statsOf s t"
  by (simp_all add: statsOf_def split: option.split)

lemma addrOf_frame [simp]:
  "addrOf (s\<lparr>now := v1\<rparr>) t = addrOf s t"
  "addrOf (s\<lparr>heap := v2\<rparr>) t = addrOf s t"
  "addrOf (s\<lparr>seenByTab := v3\<rparr>) t = addrOf s t"
  "addrOf (s\<lparr>cancelByTab := v4\<rparr>) t = addrOf s t"
  "addrOf (s\<lparr>pausedByTab := v5\<rparr>) t = addrOf s t"
  "addrOf (s\<lparr>pendingIdsByTab := v6\<rparr>) t = addrOf s t"
  "addrOf (s\<lparr>queueByTab := v7\<rparr>) t = addrOf s t"
  "addrOf (s\<lparr>jobs := v8\<rparr>) t = addrOf s t"
  "addrOf (s\<lparr>njobs := v9\<rparr>) t = addrOf s t"
  "addrOf (s\<lparr>handlers := v10\<rparr>) t = addrOf s t"
  "addrOf (s\<lparr>nhandlers := v11\<rparr>) t = addrOf s t"
  "addrOf (s\<lparr>timers := v12\<rparr>) t = addrOf s t"
  "addrOf (s\<lparr>sent := v13\<rparr>) t = addrOf s t"
  by (simp_all add: addrOf_def split: option.split)

lemma settled_frame [simp]:
  "settled (s\<lparr>now := v1\<rparr>) k = settled s k"
  "settled (s\<lparr>heap := v2\<rparr>) k = settled s k"
  "settled (s\<lparr>nalloc := v3\<rparr>) k = settled s k"
  "settled (s\<lparr>statsByTab := v4\<rparr>) k = settled s k"
  "settled (s\<lparr>seenByTab := v5\<rparr>) k = settled s k"
  "settled (s\<lparr>cancelByTab := v6\<rparr>) k = settled s k"
  "settled (s\<lparr>pausedByTab := v7\<rparr>) k = settled s k"
  "settled (s\<lparr>pendingIdsByTab := v8\<rparr>) k = settled s k"
  "settled (s\<lparr>queueByTab := v9\<rparr>) k = settled s k"
  "settled (s\<lparr>njobs := v10\<rparr>) k = settled s k"
  "settled (s\<lparr>handlers := v11\<rparr>) k = settled s k"
  "settled (s\<lparr>nhandlers := v12\<rparr>) k = settled s k"
  "settled (s\<lparr>timers := v13\<rparr>) k = settled s k"
  "settled (s\<lparr>sent := v14\<rparr>) k = settled s k"
  by (simp_all add: settled_def split: option.split)

lemma pendingOf_prims [simp]:
  "pendingOf (snd (getAutoUploadStats t s)) t' = pendingOf s t'"
  "pendingOf (unmarkAutoProcessed t a s) t' = pendingOf s t'"
  "pendingOf (markAutoProcessed t a s) t' = pendingOf s t'"
  "pendingOf (snd (wasRecentlyAutoProcessed t a ttl s)) t' = pendingOf s t'"
  "pendingOf (updStats adr f s) t' = pendingOf s t'"
  "pendingOf (setHpc hid pc s) t' = pendingOf s t'"
  "pendingOf (finish hid r s) t' = pendingOf s t'"
  "pendingOf (setJpc k jpc s) t' = pendingOf s t'"
  "pendingOf (resetAutoUploadStatsLater t d s) t' = pendingOf s t'"
  "pendingOf (resetTimerCallback t d s) t' = pendingOf s t'"
  "pendingOf (snd (enqueueAutoUploadJob t a c st s)) t' = pendingOf s t'"
  by (simp_all add: pendingOf_def split: option.split)

lemma statsOf_prims [simp]:
  "statsOf (snd (getAutoPendingIds t s)) t' = statsOf s t'"
  "statsOf (enqueueAutoPendingId t a s) t' = statsOf s t'"
  "statsOf (dequeueAutoPendingId t a s) t' = statsOf s t'"
  "statsOf (sendAutoUploadProgress t p s) t' = statsOf s t'"
  "statsOf (unmarkAutoProcessed t a s) t' = statsOf s t'"
  "statsOf (markAutoProcessed t a s) t' = statsOf s t'"
  "statsOf (snd (wasRecentlyAutoProcessed t a ttl s)) t' = statsOf s t'"
  "statsOf (setHpc hid pc s) t' = statsOf s t'"
  "statsOf (finish hid r s) t' = statsOf s t'"
  "statsOf (setJpc k jpc s) t' = statsOf s t'"
  "statsOf (clearPausedAndPending t s) t' = statsOf s t'"
  "statsOf (resetAutoUploadStatsLater t d s) t' = statsOf s t'"
  "statsOf (snd (enqueueAutoUploadJob t a c st s)) t' = statsOf s t'"
  by (simp_all add: statsOf_def split: option.split)

lemma addrOf_prims [simp]:
  "addrOf (snd (getAutoPendingIds t s)) t' = addrOf s t'"
  "addrOf (enqueueAutoPendingId t a s) t' = addrOf s t'"
  "addrOf (dequeueAutoPendingId t a s) t' = addrOf s t'"
  "addrOf (sendAutoUploadProgress t p s) t' = addrOf s t'"
  "addrOf (unmarkAutoProcessed t a s) t' = addrOf s t'"
  "addrOf (markAutoProcessed t a s) t' = addrOf s t'"
  "addrOf (snd (wasRecentlyAutoProcessed t a ttl s)) t' = addrOf s t'"
  "addrOf (updStats adr f s) t' = addrOf s t'"
  "addrOf (setHpc hid pc s) t' = addrOf s t'"
  "addrOf (finish hid r s) t' = addrOf s t'"
  "addrOf (setJpc k jpc s) t' = addrOf s t'"
  "addrOf (clearPausedAndPending t s) t' = addrOf s t'"
  "addrOf (resetAutoUploadStatsLater t d s) t' = addrOf s t'"
  "addrOf (snd (enqueueAutoUploadJob t a c st s)) t' = addrOf s t'"
  by (simp_all add: addrOf_def split: option.split)

lemma settled_prims [simp]:
  "settled (snd (getAutoPendingIds t s)) k' = settled s k'"
  "settled (enqueueAutoPendingId t a s) k' = settled s k'"
  "settled (dequeueAutoPendingId t a s) k' = settled s k'"
  "settled (sendAutoUploadProgress t p s) k' = settled s k'"
  "settled (snd (getAutoUploadStats t s)) k' = settled s k'"
  "settled (unmarkAutoProcessed t a s) k' = settled s k'"
  "settled (markAutoProcessed t a s) k' = settled s k'"
  "settled (snd (wasRecentlyAutoProcessed t a ttl s)) k' = settled s k'"
  "settled (updStats adr f s) k' = settled s k'"
  "settled (setHpc hid pc s) k' = settled s k'"
  "settled (finish hid r s) k' = settled s k'"
  "settled (clearPausedAndPending t s) k' = settled s k'"
  "settled (resetAutoUploadStatsLater t d s) k' = settled s k'"
  "settled (resetTimerCallback t d s) k' = settled s k'"
  by (simp_all add: settled_def split: option.split)


lemma fst_getAutoPendingIds [simp]: "fst (getAutoPendingIds t s) = pendingOf s t"
  by (simp add: getAutoPendingIds_eq)

lemma fst_getAutoUploadStats [simp]: "fst (getAutoUploadStats t s) = addrOf s t"
  by (simp add: getAutoUploadStats_eq)

lemma fst_enqueueAutoUploadJob [simp]: "fst (enqueueAutoUploadJob t a c st s) = njobs s"
  by (simp add: enqueueAutoUploadJob_def Let_def)

lemma pendingOf_changes [simp]:
  "pendingOf (snd (getAutoPendingIds t s)) t' = pendingOf s t'"
  "pendingOf (enqueueAutoPendingId t a s) t' =
     (if t' = t \<and> a \<noteq> [] \<and> a \<notin> set (pendingOf s t) then pendingOf s t @ [a]
      else pendingOf s t')"
  "pendingOf (dequeueAutoPendingId t a s) t' =
     (if t' = t \<and> a \<noteq> [] then remove1 a (pendingOf s t) else pendingOf s t')"
  "pendingOf (sendAutoUploadProgress t p s) t' = pendingOf s t'"
  "pendingOf (clearPausedAndPending t s) t' = (if t' = t then [] else pendingOf s t')"
  by (auto simp: getAutoPendingIds_eq enqueueAutoPendingId_eq dequeueAutoPendingId_eq
      sendAutoUploadProgress_eq clearPausedAndPending_def pendingOf_def)

lemma sent_sendAutoUploadProgress [simp]:
  "sent (sendAutoUploadProgress t p s) =
     sent s @ [\<lparr>m_tab = t, m_queue = take 8 (pendingOf s t),
                m_paused = pausedByTab s t, m_payload = p\<rparr>]"
  by (simp add: sendAutoUploadProgress_eq)

lemma getAutoUploadStats_changes [simp]:
  "heap (snd (getAutoUploadStats t s)) =
     (heap s)(addrOf s t := (statsOf s t)\<lparr>st_lastAt := now s\<rparr>)"
  "nalloc (snd (getAutoUploadStats t s)) =
     (if statsByTab s t = None then Suc (nalloc s) else nalloc s)"
  "statsByTab (snd (getAutoUploadStats t s)) = (statsByTab s)(t \<mapsto> addrOf s t)"
  by (simp_all add: getAutoUploadStats_eq)

lemma heap_updStats [simp]: "heap (updStats a f s) = (heap s)(a := f (heap s a))"
  by (simp add: updStats_def)

lemma statsOf_same_tab [simp]:
  "statsOf (snd (getAutoUploadStats t s)) t = (statsOf s t)\<lparr>st_lastAt := now s\<rparr>"
  "addrOf (snd (getAutoUploadStats t s)) t = addrOf s t"
  by (simp_all add: statsOf_def addrOf_def)

lemma statsOf_updStats:
  "statsByTab s t = Some a \<Longrightarrow> statsOf (updStats a f s) t = f (statsOf s t)"
  by (simp add: statsOf_def)

lemma cancel_paused_clear [simp]:
  "pausedByTab (clearPausedAndPending t s) = (pausedByTab s)(t := False)"
  by (simp add: clearPausedAndPending_def)

lemma timers_reset [simp]:
  "timers (resetAutoUploadStatsLater t d s) = timers s @ [(t, d, now s + d)]"
  by (simp add: resetAutoUploadStatsLater_def)

lemma handlers_setHpc:
  "handlers s hid = Some h \<Longrightarrow> handlers (setHpc hid pc s) = (handlers s)(hid \<mapsto> h\<lparr>h_pc := pc\<rparr>)"
  by (simp add: setHpc_def)

lemma handlers_finish:
  "handlers s hid = Some h \<Longrightarrow>
   handlers (finish hid r s) = (handlers s)(hid \<mapsto> h\<lparr>h_pc := H_finished r\<rparr>)"
  by (simp add: finish_def setHpc_def)


lemma enqueueAutoUploadJob_changes [simp]:
  "jobs (snd (enqueueAutoUploadJob t a c st s)) =
     (jobs s)(njobs s \<mapsto> \<lparr>j_tabId = t, j_attachmentId = a, j_cfg = c, j_st = st,
                             j_prev = queueByTab s t, j_pc = J_waiting\<rparr>)"
  "njobs (snd (enqueueAutoUploadJob t a c st s)) = Suc (njobs s)"
  "queueByTab (snd (enqueueAutoUploadJob t a c st s)) = (queueByTab s)(t \<mapsto> njobs s)"
  by (simp_all add: enqueueAutoUploadJob_def Let_def)

subsection \<open>The catch block and the admission\<close>

lemma pcOf_setHpc: "handlers s hid = Some h \<Longrightarrow> pcOf (setHpc hid pc s) hid = Some pc"
  by (simp add: pcOf_def setHpc_def)

lemma pcOf_finish: "handlers s hid = Some h \<Longrightarrow> pcOf (finish hid r s) hid = Some (H_finished r)"
  by (simp add: pcOf_def finish_def setHpc_def)

lemma handlers_catchBlock:
  "handlers s hid = Some h \<Longrightarrow>
   handlers (catchBlock hid m s) =
     (handlers s)(hid \<mapsto> h\<lparr>h_pc := (if m = AUTO_UPLOAD_CANCELLED
                                      then H_cancelled_item_sent (addrOf s (h_tabId h))
                                      else H_error_item_sent (addrOf s (h_tabId h)) m)\<rparr>)"
  by (simp add: catchBlock_def Let_def split_def handlers_setHpc)


lemma seenByTab_catchBlock:
  assumes "handlers s hid = Some h"
  shows "seenByTab (catchBlock hid m s) =
           (if h_markedSeen h then seenByTab (unmarkAutoProcessed (h_tabId h) (h_attachmentId h) s)
            else seenByTab s)"
  using assms by (simp add: catchBlock_def Let_def split_def)

lemma seenAt_unmark:
  "seenAt (unmarkAutoProcessed t a s) t' a' =
     (if t \<noteq> None \<and> a \<noteq> [] \<and> t' = t \<and> a' = a then None else seenAt s t' a')"
  by (auto simp: seenAt_def unmarkAutoProcessed_eq split: option.splits)

lemma seenAt_cong: "seenByTab s = seenByTab s' \<Longrightarrow> seenAt s t a = seenAt s' t a"
  by (simp add: seenAt_def)

lemma wasRecently_seenAt:
  "fst (wasRecentlyAutoProcessed t a ttl s) \<longleftrightarrow>
     a \<noteq> [] \<and> (case seenAt s t a of None \<Rightarrow> False | Some ts \<Rightarrow> ts \<noteq> 0 \<and> now s - ts \<le> ttl)"
  by (simp add: wasRecentlyAutoProcessed_fst seenAt_def split: option.splits)

lemma pendingOf_catchBlock:
  assumes "handlers s hid = Some h"
  shows "pendingOf (catchBlock hid m s) t =
           (if t = h_tabId h \<and> h_attachmentId h \<noteq> []
            then remove1 (h_attachmentId h) (pendingOf s t) else pendingOf s t)"
  using assms by (simp add: catchBlock_def Let_def split_def)

lemma sent_catchBlock:
  assumes "handlers s hid = Some h"
  shows "sent (catchBlock hid m s) =
           sent s @ [\<lparr>m_tab = h_tabId h,
                      m_queue = take 8 (pendingOf (catchBlock hid m s) (h_tabId h)),
                      m_paused = pausedByTab s (h_tabId h),
                      m_payload =
                        (if m = AUTO_UPLOAD_CANCELLED
                         then counts cancelled_item (Some (h_attachmentId h))
                                ((statsOf s (h_tabId h))
                                   \<lparr>st_done := st_done (statsOf s (h_tabId h)) + 1,
                                    st_lastAt := now s\<rparr>)
                         else (counts error_item (Some (h_attachmentId h))
                                ((statsOf s (h_tabId h))
                                   \<lparr>st_done := st_done (statsOf s (h_tabId h)) + 1,
                                    st_error := st_error (statsOf s (h_tabId h)) + 1,
                                    st_lastAt := now s\<rparr>))
                              \<lparr>errorMessage := Some (errText m)\<rparr>)\<rparr>]"
  using assms by (simp add: catchBlock_def Let_def split_def)


lemma wasRecently_fst_frames [simp]:
  "fst (wasRecentlyAutoProcessed t a ttl (snd (getAutoUploadStats t' s)))
     = fst (wasRecentlyAutoProcessed t a ttl s)"
  "fst (wasRecentlyAutoProcessed t a ttl (s\<lparr>cancelByTab := v\<rparr>))
     = fst (wasRecentlyAutoProcessed t a ttl s)"
  by (simp_all add: wasRecentlyAutoProcessed_fst cong: option.case_cong)

lemma admit_pcOf:
  assumes "handlers s hid = Some h"
  shows "pcOf (admit hid c s) hid =
     Some (if \<not> wpAutoAnalyzeOnUpload c then H_finished (Skipped False ''disabled'' None)
           else if cancelByTab s (h_tabId h)
                   \<and> st_done (statsOf s (h_tabId h)) < st_queued (statsOf s (h_tabId h))
           then H_finished (Skipped False ''cancelled'' None)
           else if fst (wasRecentlyAutoProcessed (h_tabId h) (h_attachmentId h) 300000 s)
           then H_finished (Skipped True ''duplicate'' None)
           else if fuseEnabledOf c
                   \<and> fuseMaxOf c \<le> of_nat (st_queued (statsOf s (h_tabId h)))
           then H_fuse_sent (fuseMaxOf c)
           else H_queued_sent c (addrOf s (h_tabId h)))"
  using assms
  by (simp add: admit_def Let_def split_def pcOf_setHpc pcOf_finish not_le)

lemma admit_frame:
  assumes "handlers s hid = Some h"
  shows "jobs (admit hid c s) = jobs s"
    and "njobs (admit hid c s) = njobs s"
    and "queueByTab (admit hid c s) = queueByTab s"
    and "now (admit hid c s) = now s"
  using assms by (simp_all add: admit_def Let_def split_def)

subsection \<open>The retry wrapper\<close>

lemma retryLoop_all_fail:
  "i \<le> n \<Longrightarrow> \<forall>j. i \<le> j \<and> j < n \<longrightarrow> \<not> succeeds (reply j) \<Longrightarrow>
   retryLoop reply n d i res slept =
     \<lparr>r_ok = False, r_attempts = n,
      r_response = (if i = n then res else lastResOf (reply (n - 1))),
      r_calls = n, r_slept = slept + d * int (n - 1 - i)\<rparr>"
proof (induction reply n d i res slept rule: retryLoop.induct)
  case (1 reply attempts delayMs i res slept)
  show ?case
  proof (cases "i < attempts")
    case False
    with "1.prems" show ?thesis by (simp add: retryLoop.simps)
  next
    case True
    then have nf: "\<not> succeeds (reply i)" using "1.prems" by simp
    have rest: "\<forall>j. i + 1 \<le> j \<and> j < attempts \<longrightarrow> \<not> succeeds (reply j)"
      using "1.prems" by simp
    have le: "i + 1 \<le> attempts" using True by simp
    have arith: "(if i + 1 < attempts then slept + delayMs else slept) + delayMs * int (attempts - 1 - (i + 1))
                 = slept + delayMs * int (attempts - 1 - i)"
    proof (cases "i + 1 < attempts")
      case True
      then have "attempts - 1 - i = Suc (attempts - 1 - (i + 1))" by simp
      then show ?thesis using True by (simp add: algebra_simps)
    next
      case False
      then show ?thesis using True by simp
    qed
    show ?thesis
    proof (cases "reply i")
      case (Threw m)
      from "1.IH"(1)[OF True Threw le rest] arith True Threw
      show ?thesis
        by (subst retryLoop.simps) (auto simp: lastResOf_def)
    next
      case (Replied r)
      with nf have nok: "\<not> appliedOk r" by (simp add: succeeds_def)
      from "1.IH"(2)[OF True Replied nok le rest] arith True Replied nok
      show ?thesis
        by (subst retryLoop.simps) (auto simp: lastResOf_def)
    qed
  qed
qed

lemma retryLoop_first_success:
  "i \<le> k \<Longrightarrow> k < n \<Longrightarrow> succeeds (reply k) \<Longrightarrow>
   \<forall>j. i \<le> j \<and> j < k \<longrightarrow> \<not> succeeds (reply j) \<Longrightarrow>
   retryLoop reply n d i res slept =
     \<lparr>r_ok = True, r_attempts = k + 1, r_response = lastResOf (reply k),
      r_calls = k + 1, r_slept = slept + d * int (k - i)\<rparr>"
proof (induction reply n d i res slept rule: retryLoop.induct)
  case (1 reply attempts delayMs i res slept)
  have lt: "i < attempts" using "1.prems" by simp
  show ?case
  proof (cases "i = k")
    case True
    with "1.prems" lt show ?thesis
      by (subst retryLoop.simps) (auto simp: succeeds_def lastResOf_def split: attempt.splits)
  next
    case False
    then have ik: "i + 1 \<le> k" using "1.prems" by simp
    have nf: "\<not> succeeds (reply i)" using "1.prems" False by simp
    have rest: "\<forall>j. i + 1 \<le> j \<and> j < k \<longrightarrow> \<not> succeeds (reply j)"
      using "1.prems" by simp
    have lt2: "i + 1 < attempts" using ik "1.prems" by simp
    have arith: "slept + delayMs + delayMs * int (k - (i + 1)) = slept + delayMs * int (k - i)"
    proof -
      have "k - i = Suc (k - (i + 1))" using ik by simp
      then show ?thesis by (simp add: algebra_simps)
    qed
    show ?thesis
    proof (cases "reply i")
      case (Threw m)
      from "1.IH"(1)[OF lt Threw ik "1.prems"(2) "1.prems"(3) rest] arith lt lt2 Threw
      show ?thesis
        by (subst retryLoop.simps) auto
    next
      case (Replied r)
      with nf have nok: "\<not> appliedOk r" by (simp add: succeeds_def)
      from "1.IH"(2)[OF lt Replied nok ik "1.prems"(2) "1.prems"(3) rest] arith lt lt2 Replied nok
      show ?thesis
        by (subst retryLoop.simps) auto
    qed
  qed
qed

lemma catchBlock_error_sent:
  assumes "handlers s hid = Some h" "m \<noteq> AUTO_UPLOAD_CANCELLED"
  shows "sent (catchBlock hid m s) =
           sent s @ [\<lparr>m_tab = h_tabId h,
                      m_queue = take 8 (pendingOf (dequeueAutoPendingId (h_tabId h) (h_attachmentId h) s) (h_tabId h)),
                      m_paused = pausedByTab s (h_tabId h),
                      m_payload = (counts error_item (Some (h_attachmentId h))
                         ((statsOf s (h_tabId h))\<lparr>st_done := st_done (statsOf s (h_tabId h)) + 1,
                            st_error := st_error (statsOf s (h_tabId h)) + 1,
                            st_lastAt := now s\<rparr>))\<lparr>errorMessage := Some (errText m)\<rparr>\<rparr>]"
  using assms
  by (simp add: catchBlock_def Let_def split_def)

lemma catchBlock_error_stats:
  assumes "handlers s hid = Some h" "m \<noteq> AUTO_UPLOAD_CANCELLED"
  shows "statsOf (catchBlock hid m s) (h_tabId h) =
          (statsOf s (h_tabId h))\<lparr>st_done := st_done (statsOf s (h_tabId h)) + 1,
                            st_error := st_error (statsOf s (h_tabId h)) + 1,
                            st_lastAt := now s\<rparr>"
  using assms
  by (simp add: catchBlock_def Let_def split_def statsOf_updStats)

lemma apply_failed_not_cancel: "msg_apply_failed \<noteq> AUTO_UPLOAD_CANCELLED"
  by (simp add: msg_apply_failed_def AUTO_UPLOAD_CANCELLED_def)

text \<open>
  C7. Called with 12 attempts 220 ms apart, the retry wrapper returns success exactly
  when one of the first 12 answers reports the alt, the title or the leyenda field as set.
  It calls the content script at most 12 times, stops at the first such answer and
  reports the number of calls made as \<^verbatim>\<open>attempts\<close>; it has then slept 220 ms between any
  two calls. After 12 answers without a field set it returns failure; the job throws,
  its promise rejects with a message that is not the cancellation sentinel, and the
  handler's catch block counts the item as done and as an error and sends \<^verbatim>\<open>error_item\<close>
  for the attachment. An answer is a success exactly when the call resolved with a
  response whose \<^verbatim>\<open>applied\<close> member reports one of the three fields as set.
\<close>

theorem retry_wrapper_twelve_attempts:
  "let r = autoApplyAttachmentWithRetry reply 12 220 in
     (r_ok r \<longleftrightarrow> (\<exists>i<12. succeeds (reply i)))
     \<and> r_calls r \<le> 12 \<and> 1 \<le> r_calls r
     \<and> r_attempts r = r_calls r
     \<and> r_slept r = 220 * (int (r_calls r) - 1)
     \<and> (\<forall>i < r_calls r - 1. \<not> succeeds (reply i))
     \<and> (r_ok r \<longrightarrow> succeeds (reply (r_calls r - 1)))
     \<and> (\<not> r_ok r \<longrightarrow> r_calls r = 12)
     \<and> (\<forall>s k j. jobs s k = Some j \<and> j_pc j = J_applying \<and> \<not> r_ok r \<longrightarrow>
            applyReturns k reply s = Some (setJpc k (J_rejected msg_apply_failed) s))
     \<and> (\<forall>s hid h k j.
            handlers s hid = Some h \<and> h_pc h = H_job k \<and> jobs s k = Some j
            \<and> j_pc j = J_rejected msg_apply_failed \<longrightarrow>
            handlerResume hid s = Some (catchBlock hid msg_apply_failed s)
            \<and> phase (m_payload (last (sent (catchBlock hid msg_apply_failed s)))) = error_item
            \<and> attachmentId (m_payload (last (sent (catchBlock hid msg_apply_failed s))))
                = Some (h_attachmentId h)
            \<and> st_error (statsOf (catchBlock hid msg_apply_failed s) (h_tabId h))
                = st_error (statsOf s (h_tabId h)) + 1
            \<and> st_done (statsOf (catchBlock hid msg_apply_failed s) (h_tabId h))
                = st_done (statsOf s (h_tabId h)) + 1)
     \<and> (\<forall>a. succeeds a \<longleftrightarrow>
            (\<exists>x. a = Replied (Some x) \<and> (alt x \<or> title x \<or> leyenda x)))"
proof -
  define r where "r = autoApplyAttachmentWithRetry reply 12 220"
  have words: "\<forall>a. succeeds a \<longleftrightarrow>
            (\<exists>x. a = Replied (Some x) \<and> (alt x \<or> title x \<or> leyenda x))"
    by (auto simp: succeeds_def appliedOk_def split: attempt.splits option.splits)
  have loop: "r = retryLoop reply 12 220 0 Null 0"
    by (simp add: r_def autoApplyAttachmentWithRetry_def)
  have core: "(r_ok r \<longleftrightarrow> (\<exists>i<12. succeeds (reply i)))
     \<and> r_calls r \<le> 12 \<and> 1 \<le> r_calls r
     \<and> r_attempts r = r_calls r
     \<and> r_slept r = 220 * (int (r_calls r) - 1)
     \<and> (\<forall>i < r_calls r - 1. \<not> succeeds (reply i))
     \<and> (r_ok r \<longrightarrow> succeeds (reply (r_calls r - 1)))
     \<and> (\<not> r_ok r \<longrightarrow> r_calls r = 12)"
  proof (cases "\<exists>i<12. succeeds (reply i)")
    case False
    then have "\<forall>j. 0 \<le> j \<and> j < 12 \<longrightarrow> \<not> succeeds (reply j)" by simp
    from retryLoop_all_fail[OF _ this, of 220 Null 0] loop False
    show ?thesis by simp
  next
    case True
    define k where "k = (LEAST i. i < 12 \<and> succeeds (reply i))"
    from True have ex: "\<exists>i. i < 12 \<and> succeeds (reply i)" by blast
    have k12: "k < 12" and ks: "succeeds (reply k)"
      using LeastI_ex[OF ex] by (simp_all add: k_def)
    have kmin: "\<forall>j. 0 \<le> j \<and> j < k \<longrightarrow> \<not> succeeds (reply j)"
    proof (intro allI impI)
      fix j assume j: "0 \<le> j \<and> j < k"
      show "\<not> succeeds (reply j)"
      proof
        assume "succeeds (reply j)"
        with j k12 have "j < 12 \<and> succeeds (reply j)" by simp
        then have "k \<le> j" unfolding k_def by (rule Least_le)
        with j show False by simp
      qed
    qed
    from retryLoop_first_success[OF _ k12 ks kmin, of 220 Null 0] loop
    have "r = \<lparr>r_ok = True, r_attempts = k + 1, r_response = lastResOf (reply k),
               r_calls = k + 1, r_slept = 0 + 220 * int (k - 0)\<rparr>" by simp
    with True k12 ks kmin show ?thesis by simp
  qed
  have job: "\<forall>s k j. jobs s k = Some j \<and> j_pc j = J_applying \<and> \<not> r_ok r \<longrightarrow>
            applyReturns k reply s = Some (setJpc k (J_rejected msg_apply_failed) s)"
    by (simp add: applyReturns_def r_def)
  have hres: "\<forall>s hid h k j.
            handlers s hid = Some h \<and> h_pc h = H_job k \<and> jobs s k = Some j
            \<and> j_pc j = J_rejected msg_apply_failed \<longrightarrow>
            handlerResume hid s = Some (catchBlock hid msg_apply_failed s)
            \<and> phase (m_payload (last (sent (catchBlock hid msg_apply_failed s)))) = error_item
            \<and> attachmentId (m_payload (last (sent (catchBlock hid msg_apply_failed s))))
                = Some (h_attachmentId h)
            \<and> st_error (statsOf (catchBlock hid msg_apply_failed s) (h_tabId h))
                = st_error (statsOf s (h_tabId h)) + 1
            \<and> st_done (statsOf (catchBlock hid msg_apply_failed s) (h_tabId h))
                = st_done (statsOf s (h_tabId h)) + 1"
    by (simp add: handlerResume_def catchBlock_error_sent catchBlock_error_stats
        apply_failed_not_cancel counts_def)
  from core job hres words show ?thesis
    unfolding Let_def r_def by blast
qed


theorem retry_wrapper_twelve_attempts_witness:
  "r_ok (autoApplyAttachmentWithRetry replyThirdTime 12 220)
   \<and> r_attempts (autoApplyAttachmentWithRetry replyThirdTime 12 220) = 3
   \<and> r_slept (autoApplyAttachmentWithRetry replyThirdTime 12 220) = 440
   \<and> \<not> r_ok (autoApplyAttachmentWithRetry replyNever 12 220)
   \<and> r_attempts (autoApplyAttachmentWithRetry replyNever 12 220) = 12
   \<and> applyReturns 0 replyNever atApplying
       = Some (setJpc 0 (J_rejected msg_apply_failed) atApplying)
   \<and> handlerResume 0 (setJpc 0 (J_rejected msg_apply_failed) atApplying)
       = Some (catchBlock 0 msg_apply_failed (setJpc 0 (J_rejected msg_apply_failed) atApplying))
   \<and> st_error (statsOf (catchBlock 0 msg_apply_failed
                  (setJpc 0 (J_rejected msg_apply_failed) atApplying)) (Some 7)) = 1"
proof -
  let ?A = "autoApplyAttachmentWithRetry replyThirdTime 12 220"
  let ?N = "autoApplyAttachmentWithRetry replyNever 12 220"
  let ?S = "setJpc 0 (J_rejected msg_apply_failed) atApplying"
  note A = retry_wrapper_twelve_attempts[of replyThirdTime, unfolded Let_def]
  note N = retry_wrapper_twelve_attempts[of replyNever, unfolded Let_def]
  have succ: "\<And>i. succeeds (replyThirdTime i) \<longleftrightarrow> 2 \<le> i"
    by (auto simp: succeeds_def replyThirdTime_def appliedOk_def)
  have "\<exists>i<12. succeeds (replyThirdTime i)" using succ by (intro exI[of _ 2]) simp
  with A have okA: "r_ok ?A" by blast
  with A have "succeeds (replyThirdTime (r_calls ?A - 1))" by blast
  then have ge: "2 \<le> r_calls ?A - 1" by (simp add: succ)
  from A have "\<forall>i < r_calls ?A - 1. \<not> succeeds (replyThirdTime i)" by blast
  then have "\<not> 2 < r_calls ?A - 1" using succ by auto
  with ge have callsA: "r_calls ?A = 3" by simp
  from A callsA have attA: "r_attempts ?A = 3" and sleptA: "r_slept ?A = 440" by simp_all
  have never: "\<And>i. \<not> succeeds (replyNever i)"
    by (simp add: succeeds_def replyNever_def appliedOk_def)
  with N have nokN: "\<not> r_ok ?N" by blast
  with N have attN: "r_attempts ?N = 12" by simp
  define J where "J = the (jobs atApplying 0)"
  define H where "H = the (handlers atApplying 0)"
  have j0: "jobs atApplying 0 = Some J" and pc0: "j_pc J = J_applying"
    unfolding J_def atApplying_def toApplying_def by code_simp+
  from N nokN j0 pc0
  have ret: "applyReturns 0 replyNever atApplying = Some ?S" by blast
  have h0: "handlers ?S 0 = Some H" and hpc: "h_pc H = H_job 0"
    and htab: "h_tabId H = Some 7" and e0: "st_error (statsOf ?S (Some 7)) = 0"
    unfolding H_def atApplying_def toApplying_def by code_simp+
  have j1: "jobs ?S 0 = Some (J\<lparr>j_pc := J_rejected msg_apply_failed\<rparr>)"
    and pc1: "j_pc (J\<lparr>j_pc := J_rejected msg_apply_failed\<rparr>) = J_rejected msg_apply_failed"
    using j0 by (simp_all add: setJpc_def)
  from N h0 hpc j1 pc1
  have res: "handlerResume 0 ?S = Some (catchBlock 0 msg_apply_failed ?S)
     \<and> st_error (statsOf (catchBlock 0 msg_apply_failed ?S) (h_tabId H))
        = st_error (statsOf ?S (h_tabId H)) + 1"
    by blast
  with htab e0 have "st_error (statsOf (catchBlock 0 msg_apply_failed ?S) (Some 7)) = 1" by simp
  with okA attA sleptA nokN attN ret res show ?thesis by blast
qed

subsection \<open>The upload signal tracker\<close>

lemma markUploadSignal_window [simp]:
  "uploadSignalWindowMs (markUploadSignal t A) = uploadSignalWindowMs A"
  by (simp add: markUploadSignal_def Let_def)

lemma noteAttachmentMeta_tracker_window [simp]:
  "uploadSignalWindowMs (snd (noteAttachmentMeta_tracker t initial el A)) = uploadSignalWindowMs A"
  by (simp add: noteAttachmentMeta_tracker_def Let_def)

lemma maybeAutoProcess_window [simp]:
  "uploadSignalWindowMs (snd (maybeAutoProcessUploadedAttachment_tracker t c l el A)) = uploadSignalWindowMs A"
proof -
  obtain r A1 where n: "noteAttachmentMeta_tracker t False el A = (r, A1)"
    by (cases "noteAttachmentMeta_tracker t False el A")
  have "uploadSignalWindowMs A1 = uploadSignalWindowMs A"
    using noteAttachmentMeta_tracker_window[of t False el A] n by simp
  then show ?thesis
    using n by (auto simp: maybeAutoProcessUploadedAttachment_tracker_def split: option.splits)
qed

lemma countRecentUploadMarked_eq:
  "countRecentUploadMarked t w A =
     length (filter (\<lambda>m. firstSeenAt m \<noteq> 0 \<and> t - firstSeenAt m \<le> w
                         \<and> (sawUploading m
                            \<or> (hasRecentUploadSignal t A \<and> 0 < uploadSessionStartAt A
                               \<and> \<not> initialScan m
                               \<and> uploadSessionStartAt A - 1000 \<le> firstSeenAt m)))
               (map snd (byId A)))"
proof -
  have "countedAsUpload t w A = (\<lambda>m. firstSeenAt m \<noteq> 0 \<and> t - firstSeenAt m \<le> w
                         \<and> (sawUploading m
                            \<or> (hasRecentUploadSignal t A \<and> 0 < uploadSessionStartAt A
                               \<and> \<not> initialScan m
                               \<and> uploadSessionStartAt A - 1000 \<le> firstSeenAt m)))"
    by (rule ext) (auto simp: countedAsUpload_def Let_def)
  then show ?thesis by (simp add: countRecentUploadMarked_def)
qed

lemma allowBatchUploadFlow_eq:
  "allowBatchUploadFlow t A m \<longleftrightarrow>
     2 \<le> countRecentUploadMarked t (uploadSignalWindowMs A) A
     \<and> hasRecentUploadSignal t A \<and> 0 < uploadSessionStartAt A
     \<and> (sawUploading m \<or> (\<not> initialScan m \<and> startedAt A + 3000 < firstSeenAt m))"
  by (auto simp: allowBatchUploadFlow_def Let_def)

lemma markUploadSignal_eq:
  "markUploadSignal t A =
     A\<lparr>uploadSessionStartAt :=
          (if uploadSignalWindowMs A < t - lastUploadingSignalAt A then t
           else uploadSessionStartAt A),
       lastUploadingSignalAt := t\<rparr>"
  by (simp add: markUploadSignal_def Let_def)

lemma maybe_tracker_Sent_iff:
  "fst (maybeAutoProcessUploadedAttachment_tracker t c l el A) = Sent ident url \<longleftrightarrow>
     (\<exists>m. fst (noteAttachmentMeta_tracker t False el A) = Some (ident, m)
          \<and> \<not> triggered m
          \<and> (allowBatchUploadFlow t (snd (noteAttachmentMeta_tracker t False el A)) m
             \<or> allowSelectFeature t c l el)
          \<and> minAgeMs A \<le> t - firstSeenAt m
          \<and> url = candidateImageUrl el \<and> url \<noteq> [])"
proof -
  obtain r A1 where n: "noteAttachmentMeta_tracker t False el A = (r, A1)"
    by (cases "noteAttachmentMeta_tracker t False el A")
  have ma: "minAgeMs A1 = minAgeMs A"
    using n by (auto simp: noteAttachmentMeta_tracker_def markUploadSignal_eq Let_def split: if_splits)
  show ?thesis
    using n ma
    by (cases r) (auto simp: maybeAutoProcessUploadedAttachment_tracker_def split: if_splits)
qed

lemma maybe_plain_Sent_iff:
  "fst (maybeAutoProcessUploadedAttachment t el A) = Sent ident url \<longleftrightarrow>
     (\<exists>m. fst (noteAttachmentMeta t el A) = Some (ident, m)
          \<and> \<not> triggered m
          \<and> (sawUploading m \<or> (startedAt A + 3000 < firstSeenAt m \<and> isSelectedAttachmentEl el))
          \<and> minAgeMs A \<le> t - firstSeenAt m
          \<and> url = candidateImageUrl el \<and> url \<noteq> [])"
proof -
  obtain r A1 where n: "noteAttachmentMeta t el A = (r, A1)"
    by (cases "noteAttachmentMeta t el A")
  have ma: "minAgeMs A1 = minAgeMs A" "startedAt A1 = startedAt A"
    using n by (auto simp: noteAttachmentMeta_def Let_def split: if_splits)
  show ?thesis
    using n ma
    by (cases r) (auto simp: maybeAutoProcessUploadedAttachment_def Let_def split: if_splits)
qed

lemma map_of_setMeta [simp]: "map_of (setMeta k m es) k = Some m"
  by (induction es) auto

lemma noted_tracker_entry:
  assumes "data_id el \<noteq> []"
  shows "\<exists>m. fst (noteAttachmentMeta_tracker t initial el A) = Some (data_id el, m)
     \<and> map_of (byId (snd (noteAttachmentMeta_tracker t initial el A))) (data_id el) = Some m
     \<and> sawUploading m
          = (hasUploadClass (className el)
             \<or> (case map_of (byId A) (data_id el) of None \<Rightarrow> False | Some m0 \<Rightarrow> sawUploading m0))
     \<and> firstSeenAt m
          = (case map_of (byId A) (data_id el) of None \<Rightarrow> t | Some m0 \<Rightarrow> firstSeenAt m0)
     \<and> initialScan m
          = (case map_of (byId A) (data_id el) of None \<Rightarrow> initial | Some m0 \<Rightarrow> initialScan m0)
     \<and> triggered m
          = (case map_of (byId A) (data_id el) of None \<Rightarrow> False | Some m0 \<Rightarrow> triggered m0)"
  using assms
  by (auto simp: noteAttachmentMeta_tracker_def markUploadSignal_eq Let_def split: option.splits)

lemma noted_tracker_signal:
  "snd (noteAttachmentMeta_tracker t initial el A)
     \<lparr>byId := byId A\<rparr>
   = (if data_id el \<noteq> [] \<and> hasUploadClass (className el) then markUploadSignal t A else A)"
  by (simp add: noteAttachmentMeta_tracker_def markUploadSignal_eq Let_def)

lemma noted_plain_entry:
  assumes "data_id el \<noteq> []"
  shows "\<exists>m. fst (noteAttachmentMeta t el A) = Some (data_id el, m)
     \<and> map_of (byId (snd (noteAttachmentMeta t el A))) (data_id el) = Some m
     \<and> sawUploading m
          = (hasUploadClass (className el)
             \<or> (case map_of (byId A) (data_id el) of None \<Rightarrow> False | Some m0 \<Rightarrow> sawUploading m0))
     \<and> firstSeenAt m
          = (case map_of (byId A) (data_id el) of None \<Rightarrow> t | Some m0 \<Rightarrow> firstSeenAt m0)
     \<and> triggered m
          = (case map_of (byId A) (data_id el) of None \<Rightarrow> False | Some m0 \<Rightarrow> triggered m0)"
  using assms
  by (auto simp: noteAttachmentMeta_def Let_def split: option.splits)

text \<open>
  Two tiles that never carried an upload class are sent by the batch gate once any upload
  signal (here a file dropped on the uploader) started a session: both count as inferred
  from the session, and \<^verbatim>\<open>sawUploading\<close> is false on both. And in the copy at
  \<^verbatim>\<open>src/context_helper.js\<close> a single tile with the class \<^verbatim>\<open>uploading\<close> is sent, with one
  entry in the map.
\<close>

theorem upload_gate_counterexample:
  "fst (maybeAutoProcessUploadedAttachment_tracker (bootTime + 7000) selectOff 0
          (plainEl ''21'') twoPlainAfterSignal) = Sent ''21'' ''u21''
   \<and> map (sawUploading \<circ> snd)
        (byId (snd (noteAttachmentMeta_tracker (bootTime + 7000) False (plainEl ''21'')
                 twoPlainAfterSignal))) = [False, False]
   \<and> fst (maybeAutoProcessUploadedAttachment (bootTime + 7000) (uploadingEl ''11'') oneUploading)
        = Sent ''11'' ''https://example.org/wp-content/uploads/11.png''
   \<and> length (byId oneUploading) = 1"
  by code_simp

text \<open>
  C8, as the code has it. In the copy with the tracker, the window is 45000 ms in the
  tracker as created and no operation changes it; a signal is recent exactly when it is at
  most that old. Marking a signal sets \<^verbatim>\<open>lastUploadingSignalAt\<close> to now, and sets
  \<^verbatim>\<open>uploadSessionStartAt\<close> to now exactly when the previous signal is older than the window.
  Noting a tile marks a signal exactly when its class has the word "upload", and then
  also sets \<^verbatim>\<open>sawUploading\<close> of its entry. The count \<^verbatim>\<open>countRecentUploadMarked\<close> is the number of
  entries first seen within the window that either saw the class or are inferred from the
  session: not from the initial scan and first seen no earlier than one second before the
  session started, while a signal is recent. The batch gate is: that count is at least 2,
  a signal is recent in a started session, and the entry saw the class or is new after
  boot. A tile is sent exactly when its entry is not yet triggered, the batch gate or the
  select feature allows it, it is at least \<^verbatim>\<open>minAgeMs\<close> old and an image URL is found.
  In the copy at \<^verbatim>\<open>src/context_helper.js\<close> there is no window and no count: a tile is sent
  exactly when its entry is not yet triggered, it saw the class or is a selected tile new
  after boot, it is at least \<^verbatim>\<open>minAgeMs\<close> old and an image URL is found.
\<close>

theorem upload_gate_window_and_count:
  "uploadSignalWindowMs (AUTO_UPLOAD t0) = 45000
   \<and> uploadSignalWindowMs (markUploadSignal t A) = uploadSignalWindowMs A
   \<and> uploadSignalWindowMs (snd (noteAttachmentMeta_tracker t initial el A)) = uploadSignalWindowMs A
   \<and> uploadSignalWindowMs (snd (maybeAutoProcessUploadedAttachment_tracker t c l el A))
        = uploadSignalWindowMs A
   \<and> (hasRecentUploadSignal t A \<longleftrightarrow> t - lastUploadingSignalAt A \<le> uploadSignalWindowMs A)
   \<and> markUploadSignal t A =
        A\<lparr>uploadSessionStartAt :=
             (if uploadSignalWindowMs A < t - lastUploadingSignalAt A then t
              else uploadSessionStartAt A),
          lastUploadingSignalAt := t\<rparr>
   \<and> snd (noteAttachmentMeta_tracker t initial el A)\<lparr>byId := byId A\<rparr>
        = (if data_id el \<noteq> [] \<and> hasUploadClass (className el) then markUploadSignal t A else A)
   \<and> (data_id el \<noteq> [] \<longrightarrow>
        (\<exists>m. fst (noteAttachmentMeta_tracker t initial el A) = Some (data_id el, m)
          \<and> map_of (byId (snd (noteAttachmentMeta_tracker t initial el A))) (data_id el) = Some m
          \<and> sawUploading m
               = (hasUploadClass (className el)
                  \<or> (case map_of (byId A) (data_id el) of
                        None \<Rightarrow> False | Some m0 \<Rightarrow> sawUploading m0))
          \<and> firstSeenAt m
               = (case map_of (byId A) (data_id el) of None \<Rightarrow> t | Some m0 \<Rightarrow> firstSeenAt m0)
          \<and> initialScan m
               = (case map_of (byId A) (data_id el) of
                    None \<Rightarrow> initial | Some m0 \<Rightarrow> initialScan m0)
          \<and> triggered m
               = (case map_of (byId A) (data_id el) of
                    None \<Rightarrow> False | Some m0 \<Rightarrow> triggered m0)))
   \<and> countRecentUploadMarked t w A =
        length (filter (\<lambda>m. firstSeenAt m \<noteq> 0 \<and> t - firstSeenAt m \<le> w
                         \<and> (sawUploading m
                            \<or> (hasRecentUploadSignal t A \<and> 0 < uploadSessionStartAt A
                               \<and> \<not> initialScan m
                               \<and> uploadSessionStartAt A - 1000 \<le> firstSeenAt m)))
               (map snd (byId A)))
   \<and> (\<forall>m. allowBatchUploadFlow t A m \<longleftrightarrow>
          2 \<le> countRecentUploadMarked t (uploadSignalWindowMs A) A
          \<and> hasRecentUploadSignal t A \<and> 0 < uploadSessionStartAt A
          \<and> (sawUploading m \<or> (\<not> initialScan m \<and> startedAt A + 3000 < firstSeenAt m)))
   \<and> (\<forall>ident url.
          fst (maybeAutoProcessUploadedAttachment_tracker t c l el A) = Sent ident url \<longleftrightarrow>
          (\<exists>m. fst (noteAttachmentMeta_tracker t False el A) = Some (ident, m)
             \<and> \<not> triggered m
             \<and> (allowBatchUploadFlow t (snd (noteAttachmentMeta_tracker t False el A)) m
                \<or> allowSelectFeature t c l el)
             \<and> minAgeMs A \<le> t - firstSeenAt m
             \<and> url = candidateImageUrl el \<and> url \<noteq> []))
   \<and> (allowSelectFeature t c l el \<longleftrightarrow>
          autoAnalyzeOnSelectMedia c \<and> isSelectedAttachmentEl el \<and> t - l < 3000)
   \<and> (\<forall>ident url.
          fst (maybeAutoProcessUploadedAttachment t el A) = Sent ident url \<longleftrightarrow>
          (\<exists>m. fst (noteAttachmentMeta t el A) = Some (ident, m)
             \<and> \<not> triggered m
             \<and> (sawUploading m
                \<or> (startedAt A + 3000 < firstSeenAt m \<and> isSelectedAttachmentEl el))
             \<and> minAgeMs A \<le> t - firstSeenAt m
             \<and> url = candidateImageUrl el \<and> url \<noteq> []))
   \<and> (data_id el \<noteq> [] \<longrightarrow>
        (\<exists>m. fst (noteAttachmentMeta t el A) = Some (data_id el, m)
          \<and> map_of (byId (snd (noteAttachmentMeta t el A))) (data_id el) = Some m
          \<and> sawUploading m
               = (hasUploadClass (className el)
                  \<or> (case map_of (byId A) (data_id el) of
                        None \<Rightarrow> False | Some m0 \<Rightarrow> sawUploading m0))
          \<and> firstSeenAt m
               = (case map_of (byId A) (data_id el) of None \<Rightarrow> t | Some m0 \<Rightarrow> firstSeenAt m0)
          \<and> triggered m
               = (case map_of (byId A) (data_id el) of
                    None \<Rightarrow> False | Some m0 \<Rightarrow> triggered m0)))"
proof -
  have sel: "allowSelectFeature t c l el \<longleftrightarrow>
          autoAnalyzeOnSelectMedia c \<and> isSelectedAttachmentEl el \<and> t - l < 3000"
    by (auto simp: allowSelectFeature_def Let_def)
  have rec: "hasRecentUploadSignal t A \<longleftrightarrow> t - lastUploadingSignalAt A \<le> uploadSignalWindowMs A"
    by (simp add: hasRecentUploadSignal_def)
  have w0: "uploadSignalWindowMs (AUTO_UPLOAD t0) = 45000" by (simp add: AUTO_UPLOAD_def)
  show ?thesis
    apply (intro conjI)
                apply (rule w0)
               apply (rule markUploadSignal_window)
              apply (rule noteAttachmentMeta_tracker_window)
             apply (rule maybeAutoProcess_window)
            apply (rule rec)
           apply (rule markUploadSignal_eq)
          apply (rule noted_tracker_signal)
         apply (intro impI, erule noted_tracker_entry)
        apply (rule countRecentUploadMarked_eq)
       apply (intro allI, rule allowBatchUploadFlow_eq)
      apply (intro allI, rule maybe_tracker_Sent_iff)
     apply (rule sel)
    apply (intro allI, rule maybe_plain_Sent_iff)
    apply (intro impI, erule noted_plain_entry)
    done
qed

theorem upload_gate_window_and_count_witness:
  "markUploadSignal (bootTime + 60000) twoUploading
        = twoUploading\<lparr>uploadSessionStartAt := bootTime + 60000,
                       lastUploadingSignalAt := bootTime + 60000\<rparr>
   \<and> markUploadSignal (bootTime + 7000) twoUploading
        = twoUploading\<lparr>uploadSessionStartAt := bootTime + 5000,
                       lastUploadingSignalAt := bootTime + 7000\<rparr>
   \<and> fst (maybeAutoProcessUploadedAttachment_tracker (bootTime + 7000) selectOff 0
             (uploadingEl ''11'') twoUploading)
        = Sent ''11'' ''https://example.org/wp-content/uploads/11.png''
   \<and> 2 \<le> countRecentUploadMarked (bootTime + 7000) 45000
            (snd (noteAttachmentMeta_tracker (bootTime + 7000) False (uploadingEl ''11'') twoUploading))
   \<and> map_option (sawUploading \<circ> snd)
        (fst (noteAttachmentMeta_tracker (bootTime + 7000) False (uploadingEl ''11'') twoUploading))
        = Some True
   \<and> fst (maybeAutoProcessUploadedAttachment (bootTime + 7000) (uploadingEl ''11'') oneUploading)
        = Sent ''11'' ''https://example.org/wp-content/uploads/11.png''
   \<and> map_option (sawUploading \<circ> snd)
        (fst (noteAttachmentMeta (bootTime + 7000) (uploadingEl ''11'') oneUploading))
        = Some True"
proof -
  let ?t = "bootTime + 7000"
  let ?el = "uploadingEl ''11''"
  let ?A1 = "snd (noteAttachmentMeta_tracker ?t False ?el twoUploading)"
  let ?url = "''https://example.org/wp-content/uploads/11.png''"
  note T1 = upload_gate_window_and_count[of bootTime "bootTime + 60000" twoUploading False ?el
              selectOff 0 45000]
  note T2 = upload_gate_window_and_count[of bootTime ?t twoUploading False ?el selectOff 0 45000]
  note T3 = upload_gate_window_and_count[of bootTime ?t ?A1 False ?el selectOff 0 45000]
  note T4 = upload_gate_window_and_count[of bootTime ?t oneUploading False ?el selectOff 0 45000]
  have w: "uploadSignalWindowMs twoUploading = 45000" by code_simp
  have l: "lastUploadingSignalAt twoUploading = bootTime + 5000" by code_simp
  have st: "uploadSessionStartAt twoUploading = bootTime + 5000" by code_simp
  have w1: "uploadSignalWindowMs ?A1 = 45000" using T2[THEN conjunct2, THEN conjunct2, THEN conjunct1] w by simp
  have idne: "data_id ?el \<noteq> []" by (simp add: uploadingEl_def)
  have cls: "hasUploadClass (className ?el)" by code_simp
  have nosel: "\<not> allowSelectFeature ?t selectOff 0 ?el"
    by (simp add: allowSelectFeature_def selectOff_def)
  have a: "markUploadSignal (bootTime + 60000) twoUploading
        = twoUploading\<lparr>uploadSessionStartAt := bootTime + 60000,
                       lastUploadingSignalAt := bootTime + 60000\<rparr>"
    using T1[THEN conjunct2, THEN conjunct2, THEN conjunct2, THEN conjunct2, THEN conjunct2, THEN conjunct1] by (simp add: w l)
  have b: "markUploadSignal ?t twoUploading
        = twoUploading\<lparr>uploadSessionStartAt := bootTime + 5000,
                       lastUploadingSignalAt := ?t\<rparr>"
    using T2[THEN conjunct2, THEN conjunct2, THEN conjunct2, THEN conjunct2, THEN conjunct2, THEN conjunct1] by (simp add: w l st)
  have out: "fst (maybeAutoProcessUploadedAttachment_tracker ?t selectOff 0 ?el twoUploading)
             = Sent ''11'' ?url"
    by code_simp
  from T2[THEN conjunct2, THEN conjunct2, THEN conjunct2, THEN conjunct2, THEN conjunct2, THEN conjunct2, THEN conjunct2, THEN conjunct2, THEN conjunct2, THEN conjunct2, THEN conjunct1, THEN spec, THEN spec, THEN iffD1, OF out] nosel
  obtain m where ab: "allowBatchUploadFlow ?t ?A1 m" by blast
  from T3[THEN conjunct2, THEN conjunct2, THEN conjunct2, THEN conjunct2, THEN conjunct2, THEN conjunct2, THEN conjunct2, THEN conjunct2, THEN conjunct2, THEN conjunct1, THEN spec, THEN iffD1, OF ab] w1
  have c: "2 \<le> countRecentUploadMarked ?t 45000 ?A1" by simp
  from T2[THEN conjunct2, THEN conjunct2, THEN conjunct2, THEN conjunct2, THEN conjunct2, THEN conjunct2, THEN conjunct2, THEN conjunct1, THEN mp, OF idne] obtain m1 where
    m1: "fst (noteAttachmentMeta_tracker ?t False ?el twoUploading) = Some (data_id ?el, m1)"
    and s1: "sawUploading m1
               = (hasUploadClass (className ?el)
                  \<or> (case map_of (byId twoUploading) (data_id ?el) of
                        None \<Rightarrow> False | Some m0 \<Rightarrow> sawUploading m0))"
    by blast
  from m1 s1 cls have d: "map_option (sawUploading \<circ> snd)
        (fst (noteAttachmentMeta_tracker ?t False ?el twoUploading)) = Some True" by simp
  have outp: "fst (maybeAutoProcessUploadedAttachment ?t ?el oneUploading) = Sent ''11'' ?url"
    by code_simp
  from T4[THEN conjunct2, THEN conjunct2, THEN conjunct2, THEN conjunct2, THEN conjunct2, THEN conjunct2, THEN conjunct2, THEN conjunct2, THEN conjunct2, THEN conjunct2, THEN conjunct2, THEN conjunct2, THEN conjunct2, THEN mp, OF idne] obtain m2 where
    m2: "fst (noteAttachmentMeta ?t ?el oneUploading) = Some (data_id ?el, m2)"
    and s2: "sawUploading m2
               = (hasUploadClass (className ?el)
                  \<or> (case map_of (byId oneUploading) (data_id ?el) of
                        None \<Rightarrow> False | Some m0 \<Rightarrow> sawUploading m0))"
    by blast
  from m2 s2 cls have e: "map_option (sawUploading \<circ> snd)
        (fst (noteAttachmentMeta ?t ?el oneUploading)) = Some True" by simp
  show ?thesis
    apply (intro conjI)
          apply (rule a)
         apply (rule b)
        apply (rule out)
       apply (rule c)
      apply (rule d)
     apply (rule outp)
    apply (rule e)
    done
qed

subsection \<open>Running the event loop\<close>

lemma run_reachable: "reachable s \<Longrightarrow> run evs s = Some s' \<Longrightarrow> reachable s'"
proof (induction evs arbitrary: s)
  case Nil
  then show ?case by simp
next
  case (Cons e es)
  then show ?case by (auto split: option.splits intro: reachable.reach_step)
qed

lemma run_the: "run evs s \<noteq> None \<Longrightarrow> run evs s = Some (the (run evs s))"
  by simp

lemmas eval_defs =
  onAutoProcessMessage_def admit_def catchBlock_def handlerResume_def jobStart_def jobResume_def
  analysisOk_def analysisFailed_def applyReturns_def markDone_def pauseStep_def
  waitIfAutoUploadPaused_def onCancelMessage_def onPauseMessage_def onResumeMessage_def
  timerFire_def atConfig_def finish_def setHpc_def setJpc_def updStats_def
  clearPausedAndPending_def resetAutoUploadStatsLater_def resetTimerCallback_def
  enqueueAutoUploadJob_def getAutoUploadStats_def sendAutoUploadProgress_def
  queuePreviewFromTab_def toInt32_def getAutoPendingIds_def enqueueAutoPendingId_def
  dequeueAutoPendingId_def
  markAutoProcessed_def unmarkAutoProcessed_def wasRecentlyAutoProcessed_def
  settled_def counts_def fuseEnabledOf_def fuseMaxOf_def isWpAdminUrl_def
  init_def Let_def split_def exampleCfg_def wpUrl_def
  AUTO_UPLOAD_CANCELLED_def msg_no_tab_def msg_missing_data_def msg_apply_failed_def errText_def

lemma afterThree_run:
  "case run threeQueued (init 1000) of
     None \<Rightarrow> False
   | Some s \<Rightarrow> pendingIdsByTab s (Some 7) = Some [''1'', ''2'', ''3''] \<and> sent s \<noteq> []"
  by (simp add: threeQueued_def eval_defs)

subsection \<open>The pending-id list\<close>

lemma pendingInv_fields [simp]:
  "pendingInv (s\<lparr>now := v1\<rparr>) = pendingInv s"
  "pendingInv (s\<lparr>heap := v2\<rparr>) = pendingInv s"
  "pendingInv (s\<lparr>nalloc := v3\<rparr>) = pendingInv s"
  "pendingInv (s\<lparr>statsByTab := v4\<rparr>) = pendingInv s"
  "pendingInv (s\<lparr>seenByTab := v5\<rparr>) = pendingInv s"
  "pendingInv (s\<lparr>cancelByTab := v6\<rparr>) = pendingInv s"
  "pendingInv (s\<lparr>pausedByTab := v7\<rparr>) = pendingInv s"
  "pendingInv (s\<lparr>queueByTab := v8\<rparr>) = pendingInv s"
  "pendingInv (s\<lparr>jobs := v9\<rparr>) = pendingInv s"
  "pendingInv (s\<lparr>njobs := v10\<rparr>) = pendingInv s"
  "pendingInv (s\<lparr>handlers := v11\<rparr>) = pendingInv s"
  "pendingInv (s\<lparr>nhandlers := v12\<rparr>) = pendingInv s"
  "pendingInv (s\<lparr>timers := v13\<rparr>) = pendingInv s"
  by (simp_all add: pendingInv_def)

lemma pendingInv_prims [simp]:
  "pendingInv (snd (getAutoUploadStats t s)) = pendingInv s"
  "pendingInv (unmarkAutoProcessed t a s) = pendingInv s"
  "pendingInv (markAutoProcessed t a s) = pendingInv s"
  "pendingInv (snd (wasRecentlyAutoProcessed t a ttl s)) = pendingInv s"
  "pendingInv (updStats adr f s) = pendingInv s"
  "pendingInv (setHpc hid pc s) = pendingInv s"
  "pendingInv (finish hid r s) = pendingInv s"
  "pendingInv (setJpc k jpc s) = pendingInv s"
  "pendingInv (resetAutoUploadStatsLater t d s) = pendingInv s"
  "pendingInv (resetTimerCallback t d s) = pendingInv s"
  "pendingInv (snd (enqueueAutoUploadJob t a c st s)) = pendingInv s"
  by (simp_all add: pendingInv_def)


lemma pendingInv_changes [simp]:
  "pendingInv (snd (getAutoPendingIds t s)) = pendingInv s"
  "pendingInv s \<Longrightarrow> pendingInv (sendAutoUploadProgress t p s)"
  "pendingInv s \<Longrightarrow> pendingInv (enqueueAutoPendingId t a s)"
  "pendingInv s \<Longrightarrow> pendingInv (dequeueAutoPendingId t a s)"
  "pendingInv s \<Longrightarrow> pendingInv (clearPausedAndPending t s)"
  by (auto simp: pendingInv_def dest: notin_set_remove1 in_set_takeD)

lemma pendingInv_catchBlock [simp]: "pendingInv s \<Longrightarrow> pendingInv (catchBlock hid m s)"
  by (simp add: catchBlock_def Let_def split_def split: option.split)

lemma pendingInv_onAutoProcessMessage [simp]:
  "pendingInv s \<Longrightarrow> pendingInv (onAutoProcessMessage t u a i s)"
  by (simp add: onAutoProcessMessage_def Let_def)

lemma pendingInv_admit [simp]: "pendingInv s \<Longrightarrow> pendingInv (admit hid c s)"
  by (simp add: admit_def Let_def split_def split: option.split)

lemma pendingInv_handlerResume:
  assumes "pendingInv s" "handlerResume hid s = Some s'"
  shows "pendingInv s'"
proof (cases "handlers s hid")
  case None
  with assms show ?thesis by (simp add: handlerResume_def)
next
  case (Some h)
  show ?thesis
  proof (cases "h_pc h")
    case (H_job k)
    with assms Some show ?thesis
      by (cases "jobs s k")
        (auto simp: handlerResume_def Let_def split: jpc.splits)
  qed (use assms Some in \<open>auto simp: handlerResume_def Let_def split_def split: if_splits\<close>)
qed

lemma pendingInv_markDone [simp]: "pendingInv s \<Longrightarrow> pendingInv (markDone k j s)"
  by (simp add: markDone_def Let_def)

lemma pendingInv_pauseStep [simp]: "pendingInv (pauseStep k t s) = pendingInv s"
  by (simp add: pauseStep_def split: pauseLoop.split)


lemma pendingInv_jobResume:
  assumes "pendingInv s" "jobResume k s = Some s'"
  shows "pendingInv s'"
proof (cases "jobs s k")
  case None
  with assms show ?thesis by (simp add: jobResume_def)
next
  case (Some j)
  show ?thesis
    by (cases "j_pc j")
      (use assms Some in \<open>auto simp: jobResume_def Let_def split: if_splits\<close>)
qed

lemma pendingInv_jobStart:
  "pendingInv s \<Longrightarrow> jobStart k s = Some s' \<Longrightarrow> pendingInv s'"
  by (cases "jobs s k") (auto simp: jobStart_def split: if_splits)

lemma pendingInv_analysisOk:
  "pendingInv s \<Longrightarrow> analysisOk k s = Some s' \<Longrightarrow> pendingInv s'"
  by (cases "jobs s k") (auto simp: analysisOk_def split: if_splits)

lemma pendingInv_analysisFailed:
  "pendingInv s \<Longrightarrow> analysisFailed k m s = Some s' \<Longrightarrow> pendingInv s'"
  by (cases "jobs s k") (auto simp: analysisFailed_def split: if_splits)

lemma pendingInv_applyReturns:
  "pendingInv s \<Longrightarrow> applyReturns k reply s = Some s' \<Longrightarrow> pendingInv s'"
  by (cases "jobs s k") (auto simp: applyReturns_def split: if_splits)


lemma pendingInv_messages [simp]:
  "pendingInv s \<Longrightarrow> pendingInv (onCancelMessage t s)"
  "pendingInv s \<Longrightarrow> pendingInv (onPauseMessage t s)"
  "pendingInv s \<Longrightarrow> pendingInv (onResumeMessage t s)"
  by (simp_all add: onCancelMessage_def onPauseMessage_def onResumeMessage_def Let_def split_def)



lemma pendingInv_timerFire:
  "pendingInv s \<Longrightarrow> timerFire i s = Some s' \<Longrightarrow> pendingInv s'"
  by (auto simp: timerFire_def split: if_splits prod.splits)

lemma pendingInv_step:
  assumes "pendingInv s" "step e s = Some s'"
  shows "pendingInv s'"
proof (cases e)
  case (HandlerResume hid)
  with assms show ?thesis using pendingInv_handlerResume by simp
next
  case (JobStart k)
  with assms show ?thesis using pendingInv_jobStart by simp
next
  case (JobResume k)
  with assms show ?thesis using pendingInv_jobResume by simp
next
  case (AnalysisOk k)
  with assms show ?thesis using pendingInv_analysisOk by simp
next
  case (AnalysisFailed k m)
  with assms show ?thesis using pendingInv_analysisFailed by simp
next
  case (ApplyReturns k reply)
  with assms show ?thesis using pendingInv_applyReturns by simp
next
  case (TimerFire i)
  with assms show ?thesis using pendingInv_timerFire by simp
qed (use assms in \<open>auto split: if_splits\<close>)

lemma pendingInv_init: "pendingInv (init t0)"
  by (simp add: pendingInv_def pendingOf_def init_def)

lemma pendingInv_reachable: "reachable s \<Longrightarrow> pendingInv s"
proof (induction rule: reachable.induct)
  case (reach_init t0)
  show ?case by (rule pendingInv_init)
next
  case (reach_step s e s')
  then show ?case using pendingInv_step by blast
qed


text \<open>
  C10. In every reachable state no tab's pending-id list contains the empty id or the
  same id twice: enqueueing an id that is empty or already present leaves the list as it
  is, and any other id is appended. Every progress message is built by
  \<^verbatim>\<open>sendAutoUploadProgress\<close>, which attaches the first 8 ids of the tab's list, a prefix of
  it; so every message sent so far carries a preview of at most 8 ids, without the empty
  id and without repetition.
\<close>

theorem pending_ids_and_preview:
  assumes "reachable s"
  shows "(\<forall>t l. pendingIdsByTab s t = Some l \<longrightarrow> distinct l \<and> [] \<notin> set l)
    \<and> (\<forall>t a. a = [] \<or> a \<in> set (pendingOf s t) \<longrightarrow>
           pendingOf (enqueueAutoPendingId t a s) t = pendingOf s t)
    \<and> (\<forall>t a. a \<noteq> [] \<and> a \<notin> set (pendingOf s t) \<longrightarrow>
           pendingOf (enqueueAutoPendingId t a s) t = pendingOf s t @ [a])
    \<and> (\<forall>t p. sent (sendAutoUploadProgress t p s) = sent s @ [last (sent (sendAutoUploadProgress t p s))]
           \<and> m_queue (last (sent (sendAutoUploadProgress t p s))) = take 8 (pendingOf s t)
           \<and> (\<exists>rest. pendingOf s t = m_queue (last (sent (sendAutoUploadProgress t p s))) @ rest))
    \<and> (\<forall>m \<in> set (sent s).
           length (m_queue m) \<le> 8 \<and> distinct (m_queue m) \<and> [] \<notin> set (m_queue m))"
proof -
  from assms have inv: "pendingInv s" by (rule pendingInv_reachable)
  have a: "\<forall>t l. pendingIdsByTab s t = Some l \<longrightarrow> distinct l \<and> [] \<notin> set l"
  proof (intro allI impI)
    fix t l assume "pendingIdsByTab s t = Some l"
    then have "pendingOf s t = l" by (simp add: pendingOf_def)
    with inv show "distinct l \<and> [] \<notin> set l" unfolding pendingInv_def by blast
  qed
  have d: "\<forall>t p. sent (sendAutoUploadProgress t p s) = sent s @ [last (sent (sendAutoUploadProgress t p s))]
           \<and> m_queue (last (sent (sendAutoUploadProgress t p s))) = take 8 (pendingOf s t)
           \<and> (\<exists>rest. pendingOf s t = m_queue (last (sent (sendAutoUploadProgress t p s))) @ rest)"
  proof (intro allI)
    fix t p
    have "pendingOf s t = take 8 (pendingOf s t) @ drop 8 (pendingOf s t)" by simp
    then show "sent (sendAutoUploadProgress t p s) = sent s @ [last (sent (sendAutoUploadProgress t p s))]
           \<and> m_queue (last (sent (sendAutoUploadProgress t p s))) = take 8 (pendingOf s t)
           \<and> (\<exists>rest. pendingOf s t = m_queue (last (sent (sendAutoUploadProgress t p s))) @ rest)"
      by (simp only: sent_sendAutoUploadProgress last_snoc progress.simps) blast
  qed
  from inv have e: "\<forall>m \<in> set (sent s).
           length (m_queue m) \<le> 8 \<and> distinct (m_queue m) \<and> [] \<notin> set (m_queue m)"
    unfolding pendingInv_def by blast
  from a d e show ?thesis by simp
qed


theorem pending_ids_and_preview_witness:
  "reachable afterThree
   \<and> pendingIdsByTab afterThree (Some 7) = Some [''1'', ''2'', ''3'']
   \<and> distinct [''1'', ''2'', ''3'' :: string]
   \<and> pendingOf (enqueueAutoPendingId (Some 7) ''3'' afterThree) (Some 7)
        = pendingOf afterThree (Some 7)
   \<and> pendingOf (enqueueAutoPendingId (Some 7) ''4'' afterThree) (Some 7)
        = [''1'', ''2'', ''3'', ''4'']
   \<and> m_queue (last (sent (sendAutoUploadProgress (Some 7)
                 (counts paused None (statsOf afterThree (Some 7))) afterThree)))
        = [''1'', ''2'', ''3'']
   \<and> length (m_queue (last (sent afterThree))) \<le> 8"
proof -
  from afterThree_run obtain s where run: "run threeQueued (init 1000) = Some s"
    and p0: "pendingIdsByTab s (Some 7) = Some [''1'', ''2'', ''3'']" and ne0: "sent s \<noteq> []"
    by (auto split: option.splits)
  from run have eq: "afterThree = s" by (simp add: afterThree_def)
  have "reachable (init 1000)" by (rule reachable.reach_init) simp
  with run eq have r: "reachable afterThree" using run_reachable by blast
  note T = pending_ids_and_preview[OF r]
  from p0 eq have p: "pendingIdsByTab afterThree (Some 7) = Some [''1'', ''2'', ''3'']" by simp
  then have po: "pendingOf afterThree (Some 7) = [''1'', ''2'', ''3'']"
    by (simp add: pendingOf_def)
  from T p have d: "distinct [''1'', ''2'', ''3'' :: string]" by blast
  have "''3'' \<in> set (pendingOf afterThree (Some 7))" by (simp add: po)
  with T have e: "pendingOf (enqueueAutoPendingId (Some 7) ''3'' afterThree) (Some 7)
        = pendingOf afterThree (Some 7)" by blast
  have "''4'' \<noteq> [] \<and> ''4'' \<notin> set (pendingOf afterThree (Some 7))" by (simp add: po)
  with T have "pendingOf (enqueueAutoPendingId (Some 7) ''4'' afterThree) (Some 7)
        = pendingOf afterThree (Some 7) @ [''4'']" by blast
  then have f: "pendingOf (enqueueAutoPendingId (Some 7) ''4'' afterThree) (Some 7)
        = [''1'', ''2'', ''3'', ''4'']" by (simp add: po)
  from T have "m_queue (last (sent (sendAutoUploadProgress (Some 7)
                 (counts paused None (statsOf afterThree (Some 7))) afterThree)))
        = take 8 (pendingOf afterThree (Some 7))" by blast
  then have q: "m_queue (last (sent (sendAutoUploadProgress (Some 7)
                 (counts paused None (statsOf afterThree (Some 7))) afterThree)))
        = [''1'', ''2'', ''3'']" by (simp add: po)
  from ne0 eq have "last (sent afterThree) \<in> set (sent afterThree)" by simp
  with T have l: "length (m_queue (last (sent afterThree))) \<le> 8" by blast
  from r p d e f q l show ?thesis by blast
qed

subsection \<open>Unmarking on cancellation and on error\<close>

lemma seenAt_catchBlock:
  assumes "handlers s hid = Some h" "h_markedSeen h" "h_tabId h \<noteq> None" "h_attachmentId h \<noteq> []"
  shows "seenAt (catchBlock hid m s) t a =
           (if t = h_tabId h \<and> a = h_attachmentId h then None else seenAt s t a)"
proof -
  have "seenAt (catchBlock hid m s) t a
          = seenAt (unmarkAutoProcessed (h_tabId h) (h_attachmentId h) s) t a"
    using assms by (intro seenAt_cong) (simp add: seenByTab_catchBlock)
  then show ?thesis using assms by (simp add: seenAt_unmark)
qed

lemma afterCancelledStart_run:
  "case run cancelledBeforeStart (init 1000) of
     None \<Rightarrow> False
   | Some s \<Rightarrow>
       handlers s 0 = Some \<lparr>h_tabId = Some 7, h_pageUrl = wpUrl, h_attachmentId = ''1'',
                            h_imageUrl = ''u1'', h_markedSeen = True, h_pc = H_job 0\<rparr>
       \<and> handlers s 1 = Some \<lparr>h_tabId = Some 7, h_pageUrl = wpUrl, h_attachmentId = ''1'',
                            h_imageUrl = ''u1'', h_markedSeen = False, h_pc = H_config\<rparr>
       \<and> jpcOf s 0 = Some (J_rejected AUTO_UPLOAD_CANCELLED)
       \<and> seenAt s (Some 7) ''1'' = Some 1000
       \<and> pendingOf s (Some 7) = [''1'']"
  by (simp add: cancelledBeforeStart_def eval_defs jpcOf_def seenAt_def pendingOf_def
      cong: let_weak_cong)

text \<open>
  C9. A handler that has marked its attachment in the seen registry and whose job's
  promise rejects, with the cancellation sentinel or with any other error, continues in
  its catch block. The catch block removes the entry of that tab and attachment from the
  registry and no other entry, and removes the attachment from the tab's pending ids; the
  progress message it then sends (\<^verbatim>\<open>cancelled_item\<close> or \<^verbatim>\<open>error_item\<close>) already carries a
  preview without the attachment, and the response is sent only later. After it, the
  duplicate check for the attachment is negative at any later time as long as nobody
  marks it again, so an admission of the same attachment is not answered with
  \<^verbatim>\<open>duplicate\<close>. When the job's promise fulfils instead, the handler answers with
  acceptance and the entry stays.
\<close>

theorem unmark_on_cancel_or_error:
  assumes "reachable s" and "handlers s hid = Some h" and "h_markedSeen h"
    and "h_tabId h \<noteq> None" and "h_attachmentId h \<noteq> []"
  shows "(\<forall>k j. h_pc h = H_job k \<and> jobs s k = Some j \<and> j_pc j = J_rejected m \<longrightarrow>
            handlerResume hid s = Some (catchBlock hid m s))
     \<and> seenAt (catchBlock hid m s) (h_tabId h) (h_attachmentId h) = None
     \<and> (\<forall>t a. (t, a) \<noteq> (h_tabId h, h_attachmentId h) \<longrightarrow>
            seenAt (catchBlock hid m s) t a = seenAt s t a)
     \<and> h_attachmentId h \<notin> set (pendingOf (catchBlock hid m s) (h_tabId h))
     \<and> (\<exists>msg. sent (catchBlock hid m s) = sent s @ [msg]
            \<and> phase (m_payload msg)
                = (if m = AUTO_UPLOAD_CANCELLED then cancelled_item else error_item)
            \<and> attachmentId (m_payload msg) = Some (h_attachmentId h)
            \<and> h_attachmentId h \<notin> set (m_queue msg))
     \<and> pcOf (catchBlock hid m s) hid
          = Some (if m = AUTO_UPLOAD_CANCELLED then H_cancelled_item_sent (addrOf s (h_tabId h))
                  else H_error_item_sent (addrOf s (h_tabId h)) m)
     \<and> (\<forall>d ttl. \<not> fst (wasRecentlyAutoProcessed (h_tabId h) (h_attachmentId h) ttl
                          ((catchBlock hid m s)\<lparr>now := now s + d\<rparr>)))
     \<and> (\<forall>hid2 h2 c. hid2 \<noteq> hid \<and> handlers s hid2 = Some h2 \<and> h_tabId h2 = h_tabId h
            \<and> h_attachmentId h2 = h_attachmentId h \<longrightarrow>
            pcOf (admit hid2 c (catchBlock hid m s)) hid2
              \<noteq> Some (H_finished (Skipped True ''duplicate'' None)))
     \<and> (\<forall>k j. h_pc h = H_job k \<and> jobs s k = Some j \<and> j_pc j = J_fulfilled \<longrightarrow>
            handlerResume hid s = Some (finish hid (Accepted (h_attachmentId h)) s)
            \<and> seenByTab (finish hid (Accepted (h_attachmentId h)) s) = seenByTab s)"
proof -
  let ?s' = "catchBlock hid m s"
  let ?t = "h_tabId h" and ?a = "h_attachmentId h"
  note h = assms(2)
  have inv: "pendingInv s" using assms(1) by (rule pendingInv_reachable)
  then have dist: "distinct (pendingOf s ?t)" by (simp add: pendingInv_def)
  have c1: "\<forall>k j. h_pc h = H_job k \<and> jobs s k = Some j \<and> j_pc j = J_rejected m \<longrightarrow>
            handlerResume hid s = Some (catchBlock hid m s)"
    using h by (simp add: handlerResume_def)
  have seen: "\<And>t a. seenAt ?s' t a = (if t = ?t \<and> a = ?a then None else seenAt s t a)"
    using assms(2-5) by (rule seenAt_catchBlock)
  have c2: "seenAt ?s' ?t ?a = None" by (simp add: seen)
  have c3: "\<forall>t a. (t, a) \<noteq> (?t, ?a) \<longrightarrow> seenAt ?s' t a = seenAt s t a"
    by (simp add: seen)
  have pend: "pendingOf ?s' ?t = remove1 ?a (pendingOf s ?t)"
    using h assms(5) by (simp add: pendingOf_catchBlock)
  have c4: "?a \<notin> set (pendingOf ?s' ?t)" using dist by (simp add: pend)
  then have q: "?a \<notin> set (take 8 (pendingOf ?s' ?t))" by (blast dest: in_set_takeD)
  have c5: "\<exists>msg. sent ?s' = sent s @ [msg]
            \<and> phase (m_payload msg)
                = (if m = AUTO_UPLOAD_CANCELLED then cancelled_item else error_item)
            \<and> attachmentId (m_payload msg) = Some ?a
            \<and> ?a \<notin> set (m_queue msg)"
    using q by (simp add: sent_catchBlock[OF h] counts_def)
  have c6: "pcOf ?s' hid
          = Some (if m = AUTO_UPLOAD_CANCELLED then H_cancelled_item_sent (addrOf s ?t)
                  else H_error_item_sent (addrOf s ?t) m)"
    by (simp add: pcOf_def handlers_catchBlock[OF h])
  have c7: "\<forall>d ttl. \<not> fst (wasRecentlyAutoProcessed ?t ?a ttl (?s'\<lparr>now := now s + d\<rparr>))"
  proof (intro allI)
    fix d ttl
    have "seenAt (?s'\<lparr>now := now s + d\<rparr>) ?t ?a = seenAt ?s' ?t ?a"
      by (rule seenAt_cong) simp
    then show "\<not> fst (wasRecentlyAutoProcessed ?t ?a ttl (?s'\<lparr>now := now s + d\<rparr>))"
      by (simp add: wasRecently_seenAt c2)
  qed
  have c8: "\<forall>hid2 h2 c. hid2 \<noteq> hid \<and> handlers s hid2 = Some h2 \<and> h_tabId h2 = ?t
            \<and> h_attachmentId h2 = ?a \<longrightarrow>
            pcOf (admit hid2 c ?s') hid2 \<noteq> Some (H_finished (Skipped True ''duplicate'' None))"
  proof (intro allI impI)
    fix hid2 h2 c
    assume a: "hid2 \<noteq> hid \<and> handlers s hid2 = Some h2 \<and> h_tabId h2 = ?t
            \<and> h_attachmentId h2 = ?a"
    then have h2: "handlers ?s' hid2 = Some h2" by (simp add: handlers_catchBlock[OF h])
    have nd: "\<not> fst (wasRecentlyAutoProcessed (h_tabId h2) (h_attachmentId h2) 300000 ?s')"
      using a by (simp add: wasRecently_seenAt c2)
    show "pcOf (admit hid2 c ?s') hid2 \<noteq> Some (H_finished (Skipped True ''duplicate'' None))"
      by (simp add: admit_pcOf[OF h2] nd)
  qed
  have c9: "\<forall>k j. h_pc h = H_job k \<and> jobs s k = Some j \<and> j_pc j = J_fulfilled \<longrightarrow>
            handlerResume hid s = Some (finish hid (Accepted ?a) s)
            \<and> seenByTab (finish hid (Accepted ?a) s) = seenByTab s"
    using h by (simp add: handlerResume_def)
  show ?thesis
    apply (intro conjI)
            apply (rule c1)
           apply (rule c2)
          apply (rule c3)
         apply (rule c4)
        apply (rule c5)
       apply (rule c6)
      apply (rule c7)
     apply (rule c8)
    apply (rule c9)
    done
qed

theorem unmark_on_cancel_or_error_witness:
  "reachable afterCancelledStart
   \<and> seenAt afterCancelledStart (Some 7) ''1'' = Some 1000
   \<and> handlerResume 0 afterCancelledStart
        = Some (catchBlock 0 AUTO_UPLOAD_CANCELLED afterCancelledStart)
   \<and> seenAt (catchBlock 0 AUTO_UPLOAD_CANCELLED afterCancelledStart) (Some 7) ''1'' = None
   \<and> ''1'' \<notin> set (pendingOf (catchBlock 0 AUTO_UPLOAD_CANCELLED afterCancelledStart) (Some 7))
   \<and> pcOf (admit 1 exampleCfg (catchBlock 0 AUTO_UPLOAD_CANCELLED afterCancelledStart)) 1
        \<noteq> Some (H_finished (Skipped True ''duplicate'' None))"
proof -
  let ?s = afterCancelledStart
  let ?h = "\<lparr>h_tabId = Some 7, h_pageUrl = wpUrl, h_attachmentId = ''1'',
              h_imageUrl = ''u1'', h_markedSeen = True, h_pc = H_job 0\<rparr>"
  let ?h2 = "\<lparr>h_tabId = Some 7, h_pageUrl = wpUrl, h_attachmentId = ''1'',
              h_imageUrl = ''u1'', h_markedSeen = False, h_pc = H_config\<rparr>"
  from afterCancelledStart_run obtain s where run: "run cancelledBeforeStart (init 1000) = Some s"
    and h0: "handlers s 0 = Some ?h" and h1: "handlers s 1 = Some ?h2"
    and j0: "jpcOf s 0 = Some (J_rejected AUTO_UPLOAD_CANCELLED)"
    and sn: "seenAt s (Some 7) ''1'' = Some 1000"
    by (auto split: option.splits)
  from run have eq: "?s = s" by (simp add: afterCancelledStart_def)
  have "reachable (init 1000)" by (rule reachable.reach_init) simp
  with run eq have r: "reachable ?s" using run_reachable by blast
  from j0 obtain j where j: "jobs ?s 0 = Some j" and jpc: "j_pc j = J_rejected AUTO_UPLOAD_CANCELLED"
    by (auto simp: jpcOf_def eq)
  have hh: "handlers ?s 0 = Some ?h" using h0 eq by simp
  have hh2: "handlers ?s 1 = Some ?h2" using h1 eq by simp
  have ms: "h_markedSeen ?h" and tn: "h_tabId ?h \<noteq> None" and an: "h_attachmentId ?h \<noteq> []"
    by simp_all
  note T = unmark_on_cancel_or_error[OF r hh ms tn an, of AUTO_UPLOAD_CANCELLED]
  have pc: "h_pc ?h = H_job 0" by simp
  from T[THEN conjunct1, THEN spec, THEN spec, THEN mp, OF conjI[OF pc conjI[OF j jpc]]]
  have a: "handlerResume 0 ?s = Some (catchBlock 0 AUTO_UPLOAD_CANCELLED ?s)" .
  from T[THEN conjunct2, THEN conjunct1]
  have b: "seenAt (catchBlock 0 AUTO_UPLOAD_CANCELLED ?s) (Some 7) ''1'' = None" by simp
  from T[THEN conjunct2, THEN conjunct2, THEN conjunct2, THEN conjunct1]
  have c: "''1'' \<notin> set (pendingOf (catchBlock 0 AUTO_UPLOAD_CANCELLED ?s) (Some 7))"
    by simp
  have pre: "(1::nat) \<noteq> 0 \<and> handlers ?s 1 = Some ?h2 \<and> h_tabId ?h2 = h_tabId ?h
             \<and> h_attachmentId ?h2 = h_attachmentId ?h"
    using hh2 by simp
  from T[THEN conjunct2, THEN conjunct2, THEN conjunct2, THEN conjunct2, THEN conjunct2,
         THEN conjunct2, THEN conjunct2, THEN conjunct1, THEN spec, THEN spec, THEN spec,
         THEN mp, OF pre]
  have d: "pcOf (admit 1 exampleCfg (catchBlock 0 AUTO_UPLOAD_CANCELLED ?s)) 1
        \<noteq> Some (H_finished (Skipped True ''duplicate'' None))" .
  from sn eq have sn': "seenAt ?s (Some 7) ''1'' = Some 1000" by simp
  show ?thesis
    apply (intro conjI)
         apply (rule r)
        apply (rule sn')
       apply (rule a)
      apply (rule b)
     apply (rule c)
    apply (rule d)
    done
qed

subsection \<open>A failing item\<close>







end
